theory Spec2Isabelle
  imports Main
begin

section \<open>Seat reservation server: data model\<close>

text \<open>
  The model follows the seat reservation part of \<^verbatim>\<open>src/server.js\<close>: the table
  \<^verbatim>\<open>seats\<close>, the middleware \<^verbatim>\<open>cleanExpiredLocks\<close>, the handlers under
  \<^verbatim>\<open>/api/seats\<close> (identity in the request body, lock time in \<^verbatim>\<open>lockedAt\<close>) and the
  timer-based handlers \<^verbatim>\<open>/lock/:id\<close>, \<^verbatim>\<open>/confirm/:id\<close>, \<^verbatim>\<open>/unlock/:id\<close>,
  \<^verbatim>\<open>/seats\<close> with the helpers \<^verbatim>\<open>clearSeatTimer\<close> and \<^verbatim>\<open>armSeatExpiry\<close>. All of
  them work on the one table \<^verbatim>\<open>seats\<close>. The module declares
  \<^verbatim>\<open>LOCK_EXPIRATION_TIME\<close> and uses, at lines 511 and 551, a name \<^verbatim>\<open>LOCK_TTL\<close> that it
  declares nowhere: evaluating it throws a ReferenceError.

  A property of a JavaScript object is absent (\<open>Undefined\<close>), \<^verbatim>\<open>null\<close> or a value.
\<close>

datatype 'a js = Undefined | Null | Val 'a

text \<open>
  A seat object. The table is created with the properties \<^verbatim>\<open>id\<close>, \<^verbatim>\<open>status\<close>,
  \<^verbatim>\<open>lockedBy\<close>, \<^verbatim>\<open>lockedAt\<close>, \<^verbatim>\<open>bookedBy\<close>; the timer-based handlers are written
  to store objects with \<^verbatim>\<open>status\<close>, \<^verbatim>\<open>lockedBy\<close>, \<^verbatim>\<open>lockExpiresAt\<close> and to add
  \<^verbatim>\<open>timeoutId\<close>.
  The status is the string the code stores. Times are milliseconds (\<^verbatim>\<open>Date.now()\<close>).
\<close>

record seat =
  seat_id :: "int js"
  status :: string
  lockedBy :: "string js"
  lockedAt :: "int js"
  bookedBy :: "string js"
  lockExpiresAt :: "int js"
  timeoutId :: "nat js"

text \<open>
  The object literals of the timer-based handlers: \<^verbatim>\<open>{ status: 'available' }\<close>,
  \<^verbatim>\<open>{ status: 'locked', lockedBy: user, lockExpiresAt }\<close>, \<^verbatim>\<open>{ status: 'booked' }\<close>.
  Every property they do not name is absent.
\<close>

definition seatObject :: "string \<Rightarrow> string js \<Rightarrow> int js \<Rightarrow> seat" where
  "seatObject st holder expires =
     \<lparr>seat_id = Undefined, status = st, lockedBy = holder, lockedAt = Undefined,
      bookedBy = Undefined, lockExpiresAt = expires, timeoutId = Undefined\<rparr>"

text \<open>
  The process state: the table, and the timers that \<^verbatim>\<open>setTimeout\<close> has scheduled and that
  have neither fired nor been cleared (handle, the \<^verbatim>\<open>seatId\<close> the callback captured, due
  time).
\<close>

record server =
  seats :: "seat list"
  timers :: "(nat \<times> nat \<times> int) list"

text \<open>\<^verbatim>\<open>Array.from({ length: 50 }, (_, index) => ({ id: index + 1, ... }))\<close>\<close>

definition initialSeat :: "nat \<Rightarrow> seat" where
  "initialSeat index =
     \<lparr>seat_id = Val (int index + 1), status = ''available'', lockedBy = Null, lockedAt = Null,
      bookedBy = Null, lockExpiresAt = Undefined, timeoutId = Undefined\<rparr>"

definition startup :: server where
  "startup = \<lparr>seats = map initialSeat [0..<50], timers = []\<rparr>"

definition LOCK_EXPIRATION_TIME :: int where
  "LOCK_EXPIRATION_TIME = 60 * 1000"

section \<open>Responses\<close>

text \<open>
  The message texts of the responses, one constructor for each text of the source; a
  template literal keeps its argument.
\<close>

datatype message =
    SeatDoesNotExist int
  | SeatAlreadyBooked int
  | SeatAlreadyLocked int
  | SeatLockedConfirmWithin int
  | NotLockedCannotBeBooked
  | LockExpiredLockAgain
  | SeatLockedByAnotherUser
  | SeatBookedSuccessfully int
  | SeatAlreadyAvailable int
  | SeatBookedCannotUnlock int
  | SeatLockCleared int
  | UserIdRequired
  | SeatNotFound
  | SeatIsCannotLock string
  | SeatLockedSuccessfully
  | MustBeLockedBeforeConfirming
  | LockedByAnotherUser
  | LockHasExpired
  | BookingConfirmed
  | SeatIsNotLocked
  | SeatReleased

text \<open>
  The JSON bodies: \<^verbatim>\<open>{ message }\<close> (timer-based handlers),
  \<^verbatim>\<open>{ success: false, message }\<close>, \<^verbatim>\<open>{ success: true, message, data: seat }\<close>,
  \<^verbatim>\<open>{ success: true, data: seats }\<close>, \<^verbatim>\<open>{ success: true, count, data }\<close>, the map from
  index to \<^verbatim>\<open>{ status }\<close> of \<^verbatim>\<open>GET /seats\<close>, and the answer of Express to an error
  that a handler throws and does not catch (status 500; the module installs no error
  handler of its own).
\<close>

datatype jsError = ReferenceError | TypeError

datatype body =
    Message message
  | Failure message
  | Success message seat
  | SeatList "seat list"
  | CountedList nat "seat list"
  | StatusView "string list"
  | Uncaught jsError

type_synonym response = "nat \<times> body"

text \<open>The seat record a response carries in its \<^verbatim>\<open>data\<close> property, if it carries one.\<close>

fun dataOf :: "response \<Rightarrow> seat option" where
  "dataOf (_, Success _ s) = Some s"
| "dataOf (_, _) = None"

section \<open>The middleware and the handlers under /api/seats\<close>

text \<open>
  \<^verbatim>\<open>a - seat.lockedAt > LOCK_EXPIRATION_TIME\<close>: \<^verbatim>\<open>null\<close> counts as 0 in the subtraction,
  an absent property gives \<^verbatim>\<open>NaN\<close>, and every comparison with \<^verbatim>\<open>NaN\<close> is false.
\<close>

fun elapsedOver :: "int \<Rightarrow> int js \<Rightarrow> bool" where
  "elapsedOver a (Val t) = (a - t > LOCK_EXPIRATION_TIME)"
| "elapsedOver a Null = (a > LOCK_EXPIRATION_TIME)"
| "elapsedOver a Undefined = False"

definition cleanSeat :: "int \<Rightarrow> seat \<Rightarrow> seat" where
  "cleanSeat currentTime s =
     (if status s = ''locked'' \<and> elapsedOver currentTime (lockedAt s)
      then s\<lparr>status := ''available'', lockedBy := Null, lockedAt := Null\<rparr>
      else s)"

definition cleanExpiredLocks :: "int \<Rightarrow> server \<Rightarrow> server" where
  "cleanExpiredLocks currentTime srv = srv\<lparr>seats := map (cleanSeat currentTime) (seats srv)\<rparr>"

text \<open>
  \<^verbatim>\<open>seats.find(s => s.id === seatId)\<close>, as the index of the first seat with that id: the
  handlers change the object they found in place.
\<close>

fun findSeat :: "int \<Rightarrow> seat list \<Rightarrow> nat option" where
  "findSeat seatId [] = None"
| "findSeat seatId (s # ss) =
     (if seat_id s = Val seatId then Some 0 else map_option Suc (findSeat seatId ss))"

text \<open>
  \<^verbatim>\<open>req.body.userId\<close> is absent (\<open>None\<close>) or a string; \<^verbatim>\<open>!userId\<close> holds when it is
  absent or empty. The handlers below make this test by cases on the option; the timer-based
  handlers apply the same test to \<^verbatim>\<open>req.query.user\<close>.
\<close>

definition missing :: "string option \<Rightarrow> bool" where
  "missing userId = (case userId of None \<Rightarrow> True | Some u \<Rightarrow> u = [])"

definition apiGetSeats :: "server \<Rightarrow> response" where
  "apiGetSeats srv = (200, SeatList (seats srv))"

definition apiLock :: "int \<Rightarrow> string option \<Rightarrow> int \<Rightarrow> server \<Rightarrow> response \<times> server" where
  "apiLock seatId userId now srv =
     (case userId of
        None \<Rightarrow> ((400, Failure UserIdRequired), srv)
      | Some u \<Rightarrow>
          if u = [] then ((400, Failure UserIdRequired), srv)
          else
            (case findSeat seatId (seats srv) of
               None \<Rightarrow> ((404, Failure SeatNotFound), srv)
             | Some j \<Rightarrow>
                 (let s = seats srv ! j in
                  if status s \<noteq> ''available''
                  then ((400, Failure (SeatIsCannotLock (status s))), srv)
                  else
                    (let s' = s\<lparr>status := ''locked'', lockedBy := Val u, lockedAt := Val now\<rparr>
                     in ((200, Success SeatLockedSuccessfully s'),
                         srv\<lparr>seats := (seats srv)[j := s']\<rparr>)))))"

definition apiConfirm :: "int \<Rightarrow> string option \<Rightarrow> int \<Rightarrow> server \<Rightarrow> response \<times> server" where
  "apiConfirm seatId userId now srv =
     (case userId of
        None \<Rightarrow> ((400, Failure UserIdRequired), srv)
      | Some u \<Rightarrow>
          if u = [] then ((400, Failure UserIdRequired), srv)
          else
            (case findSeat seatId (seats srv) of
               None \<Rightarrow> ((404, Failure SeatNotFound), srv)
             | Some j \<Rightarrow>
                 (let s = seats srv ! j in
                  if status s \<noteq> ''locked''
                  then ((400, Failure MustBeLockedBeforeConfirming), srv)
                  else if lockedBy s \<noteq> Val u
                  then ((403, Failure LockedByAnotherUser), srv)
                  else if elapsedOver now (lockedAt s)
                  then ((400, Failure LockHasExpired),
                        srv\<lparr>seats := (seats srv)
                               [j := s\<lparr>status := ''available'', lockedBy := Null, lockedAt := Null\<rparr>]\<rparr>)
                  else
                    (let s' = s\<lparr>status := ''booked'', bookedBy := Val u,
                                 lockedBy := Null, lockedAt := Null\<rparr>
                     in ((200, Success BookingConfirmed s'),
                         srv\<lparr>seats := (seats srv)[j := s']\<rparr>)))))"

definition apiRelease :: "int \<Rightarrow> string option \<Rightarrow> server \<Rightarrow> response \<times> server" where
  "apiRelease seatId userId srv =
     (case userId of
        None \<Rightarrow> ((400, Failure UserIdRequired), srv)
      | Some u \<Rightarrow>
          if u = [] then ((400, Failure UserIdRequired), srv)
          else
            (case findSeat seatId (seats srv) of
               None \<Rightarrow> ((404, Failure SeatNotFound), srv)
             | Some j \<Rightarrow>
                 (let s = seats srv ! j in
                  if status s \<noteq> ''locked''
                  then ((400, Failure SeatIsNotLocked), srv)
                  else if lockedBy s \<noteq> Val u
                  then ((403, Failure LockedByAnotherUser), srv)
                  else
                    (let s' = s\<lparr>status := ''available'', lockedBy := Null, lockedAt := Null\<rparr>
                     in ((200, Success SeatReleased s'),
                         srv\<lparr>seats := (seats srv)[j := s']\<rparr>)))))"

definition apiAvailable :: "server \<Rightarrow> response" where
  "apiAvailable srv =
     (let availableSeats = filter (\<lambda>s. status s = ''available'') (seats srv)
      in (200, CountedList (length availableSeats) availableSeats))"

section \<open>The timer-based handlers\<close>

text \<open>
  \<^verbatim>\<open>clearSeatTimer(seat)\<close>, for the seat object at index \<open>i\<close> of the table: nothing
  happens when there is no such object or its \<^verbatim>\<open>timeoutId\<close> is not set; a timer handle
  is an object, so a handle that is set is truthy.
\<close>

definition clearSeatTimer :: "nat \<Rightarrow> server \<Rightarrow> server" where
  "clearSeatTimer i srv =
     (if i < length (seats srv) then
        (case timeoutId (seats srv ! i) of
           Val h \<Rightarrow>
             srv\<lparr>seats := (seats srv)[i := (seats srv ! i)\<lparr>timeoutId := Undefined\<rparr>],
                 timers := filter (\<lambda>(h', _, _). h' \<noteq> h) (timers srv)\<rparr>
         | Null \<Rightarrow> srv
         | Undefined \<Rightarrow> srv)
      else srv)"

text \<open>
  \<^verbatim>\<open>seat.lockExpiresAt && seat.lockExpiresAt <= now\<close>: an absent property, \<^verbatim>\<open>null\<close>
  and 0 are falsy.
\<close>

fun expiredAt :: "int js \<Rightarrow> int \<Rightarrow> bool" where
  "expiredAt (Val t) now = (t \<noteq> 0 \<and> t \<le> now)"
| "expiredAt Null now = False"
| "expiredAt Undefined now = False"

text \<open>
  The callback of lines 505 to 510, the arrow function that \<^verbatim>\<open>armSeatExpiry(seatId)\<close>
  is written to hand to \<^verbatim>\<open>setTimeout\<close>, run at time \<open>now\<close>. Reading
  \<^verbatim>\<open>seats[seatId].status\<close> of a seat that does not exist throws a TypeError: the
  result \<open>None\<close>.
\<close>

definition expiryCallback :: "nat \<Rightarrow> int \<Rightarrow> server \<Rightarrow> server option" where
  "expiryCallback seatId now srv =
     (if seatId < length (seats srv) then
        (if status (seats srv ! seatId) = ''locked''
            \<and> expiredAt (lockExpiresAt (seats srv ! seatId)) now
         then Some (srv\<lparr>seats := (seats srv)[seatId := seatObject ''available'' Undefined Undefined]\<rparr>)
         else Some srv)
      else None)"

text \<open>
  \<^verbatim>\<open>armSeatExpiry(seatId)\<close>: after \<^verbatim>\<open>clearSeatTimer(seat)\<close> the arguments of
  \<^verbatim>\<open>setTimeout\<close> are evaluated, and \<^verbatim>\<open>LOCK_TTL + 50\<close> throws a ReferenceError before
  \<^verbatim>\<open>setTimeout\<close> is called: no timer is scheduled and no handle stored. The result is
  the error and the state the call leaves. (Its only caller is line 553, which is never
  reached.)
\<close>

definition armSeatExpiry :: "nat \<Rightarrow> server \<Rightarrow> jsError \<times> server" where
  "armSeatExpiry seatId srv = (ReferenceError, clearSeatTimer seatId srv)"

text \<open>
  \<^verbatim>\<open>String(req.query.user || 'anonymous')\<close>, for a query parameter that is absent or a
  string.
\<close>

definition userOf :: "string option \<Rightarrow> string" where
  "userOf q = (case q of None \<Rightarrow> ''anonymous'' | Some u \<Rightarrow> if u = [] then ''anonymous'' else u)"

text \<open>
  \<^verbatim>\<open>seats[id]\<close> is an object exactly when the id (here \<open>id'\<close>) is an index of the array. (An id that
  is not an integer, such as \<^verbatim>\<open>NaN\<close>, names no element either and behaves as an index out
  of range.)
\<close>

definition hasSeat :: "int \<Rightarrow> server \<Rightarrow> bool" where
  "hasSeat id' srv = (0 \<le> id' \<and> nat id' < length (seats srv))"

definition getSeats :: "server \<Rightarrow> response" where
  "getSeats srv = (200, StatusView (map status (seats srv)))"

text \<open>
  \<^verbatim>\<open>POST /lock/:id\<close>. After the checks for 404, 409 and 423, line 551
  (\<^verbatim>\<open>const lockExpiresAt = now + LOCK_TTL\<close>) throws a ReferenceError: Express answers
  500, and lines 552 to 555, which would store the lock, arm the timer and answer 200, are
  never reached. The state is the one the lazy release of lines 537 to 540 has left.
\<close>

definition lock :: "int \<Rightarrow> string option \<Rightarrow> int \<Rightarrow> server \<Rightarrow> response \<times> server" where
  "lock id' q now srv =
     (let user = userOf q in
      if hasSeat id' srv then
        (let i = nat id';
             seat = seats srv ! i;
             srv1 = (if status seat = ''locked'' \<and> expiredAt (lockExpiresAt seat) now
                     then (let c = clearSeatTimer i srv
                           in c\<lparr>seats := (seats c)[i := seatObject ''available'' Undefined Undefined]\<rparr>)
                     else srv)
         in if status (seats srv1 ! i) = ''booked''
            then ((409, Message (SeatAlreadyBooked id')), srv1)
            else if status (seats srv1 ! i) = ''locked''
            then ((423, Message (SeatAlreadyLocked id')), srv1)
            else ((500, Uncaught ReferenceError), srv1))
      else ((404, Message (SeatDoesNotExist id')), srv))"

definition confirm :: "int \<Rightarrow> string option \<Rightarrow> int \<Rightarrow> server \<Rightarrow> response \<times> server" where
  "confirm id' q now srv =
     (let user = userOf q in
      if hasSeat id' srv then
        (let i = nat id';
             seat = seats srv ! i
         in if status seat \<noteq> ''locked''
            then ((400, Message NotLockedCannotBeBooked), srv)
            else if expiredAt (lockExpiresAt seat) now
            then (let c = clearSeatTimer i srv
                  in ((408, Message LockExpiredLockAgain),
                      c\<lparr>seats := (seats c)[i := seatObject ''available'' Undefined Undefined]\<rparr>))
            else if lockedBy seat \<noteq> Val user
            then ((403, Message SeatLockedByAnotherUser), srv)
            else (let c = clearSeatTimer i srv
                  in ((200, Message (SeatBookedSuccessfully id')),
                      c\<lparr>seats := (seats c)[i := seatObject ''booked'' Undefined Undefined]\<rparr>)))
      else ((404, Message (SeatDoesNotExist id')), srv))"

definition unlock :: "int \<Rightarrow> server \<Rightarrow> response \<times> server" where
  "unlock id' srv =
     (if hasSeat id' srv then
        (let i = nat id';
             seat = seats srv ! i
         in if status seat = ''available''
            then ((200, Message (SeatAlreadyAvailable id')), srv)
            else if status seat = ''booked''
            then ((409, Message (SeatBookedCannotUnlock id')), srv)
            else (let c = clearSeatTimer i srv
                  in ((200, Message (SeatLockCleared id')),
                      c\<lparr>seats := (seats c)[i := seatObject ''available'' Undefined Undefined]\<rparr>)))
      else ((404, Message (SeatDoesNotExist id')), srv))"

section \<open>Runs of the server\<close>

text \<open>
  What can change the state: the middleware (it runs before the handler of every
  request, with its own reading of the clock), the handlers that write, and the event
  loop delivering a timer. A timer that was cleared, or never armed, is not delivered.
  The delivery time is not tied to the due time: the callback reads the clock itself.
  (No handler of the source arms a timer, so no run delivers one; the event is kept for
  the states in which one is pending.)
  The handlers of the \<^verbatim>\<open>GET\<close> routes change nothing and are no events.
\<close>

datatype event =
    Sweep int
  | ApiLock int "string option" int
  | ApiConfirm int "string option" int
  | ApiRelease int "string option"
  | Lock int "string option" int
  | Confirm int "string option" int
  | Unlock int
  | Expiry nat int

definition deliver :: "nat \<Rightarrow> int \<Rightarrow> server \<Rightarrow> server option" where
  "deliver h now srv =
     (case find (\<lambda>(h', _, _). h' = h) (timers srv) of
        None \<Rightarrow> Some srv
      | Some (_, seatId, _) \<Rightarrow>
          expiryCallback seatId now (srv\<lparr>timers := filter (\<lambda>(h', _, _). h' \<noteq> h) (timers srv)\<rparr>))"

fun step :: "event \<Rightarrow> server \<Rightarrow> server option" where
  "step (Sweep now) srv = Some (cleanExpiredLocks now srv)"
| "step (ApiLock seatId userId now) srv = Some (snd (apiLock seatId userId now srv))"
| "step (ApiConfirm seatId userId now) srv = Some (snd (apiConfirm seatId userId now srv))"
| "step (ApiRelease seatId userId) srv = Some (snd (apiRelease seatId userId srv))"
| "step (Lock id' q now) srv = Some (snd (lock id' q now srv))"
| "step (Confirm id' q now) srv = Some (snd (confirm id' q now srv))"
| "step (Unlock id') srv = Some (snd (unlock id' srv))"
| "step (Expiry h now) srv = deliver h now srv"

fun run :: "event list \<Rightarrow> server \<Rightarrow> server option" where
  "run [] srv = Some srv"
| "run (e # es) srv = (case step e srv of None \<Rightarrow> None | Some srv' \<Rightarrow> run es srv')"

section \<open>The vocabulary of the specification\<close>

text \<open>A property is set when it holds a value: neither absent nor \<^verbatim>\<open>null\<close>.\<close>

fun isSet :: "'a js \<Rightarrow> bool" where
  "isSet (Val _) = True"
| "isSet Null = False"
| "isSet Undefined = False"

text \<open>
  The holder of a seat is kept in \<^verbatim>\<open>lockedBy\<close> or \<^verbatim>\<open>bookedBy\<close>; the time a lock ends
  is kept in \<^verbatim>\<open>lockExpiresAt\<close> (timer-based handlers) or follows from \<^verbatim>\<open>lockedAt\<close>
  (handlers under \<^verbatim>\<open>/api/seats\<close>).
\<close>

definition holderSet :: "seat \<Rightarrow> bool" where
  "holderSet s = (isSet (lockedBy s) \<or> isSet (bookedBy s))"

definition expirySet :: "seat \<Rightarrow> bool" where
  "expirySet s = (isSet (lockedAt s) \<or> isSet (lockExpiresAt s))"

text \<open>
  The deadline of a lock has passed at time \<open>now\<close>: a lock taken at \<^verbatim>\<open>lockedAt\<close> ends
  \<^verbatim>\<open>LOCK_EXPIRATION_TIME\<close> later and has passed once the clock is beyond that (the
  comparison of \<^verbatim>\<open>cleanExpiredLocks\<close> and of the Confirm under \<^verbatim>\<open>/api/seats\<close>); a
  \<^verbatim>\<open>lockExpiresAt\<close> has passed when it is at or before the clock.
\<close>

definition deadlinePassed :: "int \<Rightarrow> seat \<Rightarrow> bool" where
  "deadlinePassed now s =
     ((case lockedAt s of Val t \<Rightarrow> t + LOCK_EXPIRATION_TIME < now
        | Null \<Rightarrow> False | Undefined \<Rightarrow> False)
      \<or> (case lockExpiresAt s of Val t \<Rightarrow> t \<le> now | Null \<Rightarrow> False | Undefined \<Rightarrow> False))"

text \<open>No timer that is still to be delivered has captured the seat at index \<open>i\<close>.\<close>

definition noTimerFor :: "nat \<Rightarrow> server \<Rightarrow> bool" where
  "noTimerFor i srv \<longleftrightarrow> (\<forall>e \<in> set (timers srv). fst (snd e) \<noteq> i)"

section \<open>Well-formed states\<close>

text \<open>
  The shapes of a seat object between two events: as created, locked or booked through
  \<^verbatim>\<open>/api/seats\<close> (the object keeps its \<^verbatim>\<open>id\<close>), or one of the objects the
  timer-based handlers are written to store (no \<^verbatim>\<open>id\<close>; a locked one carries its
  timer handle).
\<close>

definition shapeOk :: "nat \<Rightarrow> seat \<Rightarrow> bool" where
  "shapeOk j s \<longleftrightarrow>
     s = initialSeat j
   \<or> (\<exists>u t. u \<noteq> [] \<and> s = (initialSeat j)\<lparr>status := ''locked'', lockedBy := Val u, lockedAt := Val t\<rparr>)
   \<or> (\<exists>u. u \<noteq> [] \<and> s = (initialSeat j)\<lparr>status := ''booked'', bookedBy := Val u\<rparr>)
   \<or> s = seatObject ''available'' Undefined Undefined
   \<or> (\<exists>u t h. u \<noteq> [] \<and> s = (seatObject ''locked'' (Val u) (Val t))\<lparr>timeoutId := Val h\<rparr>)
   \<or> s = seatObject ''booked'' Undefined Undefined"

text \<open>
  A pending timer belongs to a seat of the table that is locked and carries the timer's
  handle.
\<close>

definition timerOk :: "server \<Rightarrow> nat \<times> nat \<times> int \<Rightarrow> bool" where
  "timerOk srv e \<longleftrightarrow>
     fst (snd e) < length (seats srv)
   \<and> timeoutId (seats srv ! fst (snd e)) = Val (fst e)
   \<and> status (seats srv ! fst (snd e)) = ''locked''"

definition wellFormed :: "server \<Rightarrow> bool" where
  "wellFormed srv \<longleftrightarrow>
     length (seats srv) = 50
   \<and> (\<forall>j < 50. shapeOk j (seats srv ! j))
   \<and> (\<forall>e \<in> set (timers srv). timerOk srv e)"

text \<open>
  What the runs of the source keep beyond that: since Lock never stores a lock, no seat
  carries \<^verbatim>\<open>lockExpiresAt\<close> or a timer handle, and no timer is pending.
\<close>

definition plainSeat :: "seat \<Rightarrow> bool" where
  "plainSeat s \<longleftrightarrow> lockExpiresAt s = Undefined \<and> timeoutId s = Undefined"

definition noTimerLocks :: "server \<Rightarrow> bool" where
  "noTimerLocks srv \<longleftrightarrow> timers srv = [] \<and> list_all plainSeat (seats srv)"

text \<open>
  A well-formed state in which seat 0 holds a timer-based lock with its timer pending, as
  lines 552 and 553 are written to leave it. No run of the source reaches it; it
  exercises the paths of Confirm, Unlock and the expiry callback that handle such a lock.
\<close>

definition timerLockExample :: server where
  "timerLockExample =
     startup\<lparr>seats := (seats startup)
                [0 := (seatObject ''locked'' (Val ''alice'') (Val 61000))\<lparr>timeoutId := Val 7\<rparr>],
             timers := [(7, 0, 61050)]\<rparr>"

section \<open>The invariant of the runs\<close>

lemma findSeat_Some:
  "findSeat k ss = Some j \<Longrightarrow> j < length ss \<and> seat_id (ss ! j) = Val k"
proof (induction ss arbitrary: j)
  case Nil
  then show ?case by simp
next
  case (Cons s ss)
  then show ?case by (auto split: if_splits)
qed

lemma findSeat_None:
  "findSeat k ss = None \<longleftrightarrow> (\<forall>s \<in> set ss. seat_id s \<noteq> Val k)"
  by (induction ss) auto

lemma wellFormed_startup: "wellFormed startup"
  by (simp add: wellFormed_def startup_def shapeOk_def)

lemma shapeOk_cleanSeat: "shapeOk j s \<Longrightarrow> shapeOk j (cleanSeat now s)"
  unfolding shapeOk_def cleanSeat_def
  by (elim disjE exE conjE) (simp_all add: initialSeat_def seatObject_def)

lemma cleanSeat_handle:
  "shapeOk j s \<Longrightarrow> timeoutId s = Val h \<Longrightarrow> cleanSeat now s = s"
  unfolding shapeOk_def cleanSeat_def
  by (elim disjE exE conjE) (simp_all add: initialSeat_def seatObject_def)

lemma wellFormed_cleanExpiredLocks:
  assumes "wellFormed srv"
  shows "wellFormed (cleanExpiredLocks now srv)"
proof -
  have len: "length (seats srv) = 50"
    and shapes: "\<And>j. j < 50 \<Longrightarrow> shapeOk j (seats srv ! j)"
    and tms: "\<And>e. e \<in> set (timers srv) \<Longrightarrow> timerOk srv e"
    using assms by (auto simp: wellFormed_def)
  have "timerOk (cleanExpiredLocks now srv) e" if "e \<in> set (timers srv)" for e
  proof -
    from tms[OF that] have i: "fst (snd e) < 50"
      and h: "timeoutId (seats srv ! fst (snd e)) = Val (fst e)"
      and l: "status (seats srv ! fst (snd e)) = ''locked''"
      by (auto simp: timerOk_def len)
    have "cleanSeat now (seats srv ! fst (snd e)) = seats srv ! fst (snd e)"
      using cleanSeat_handle[OF shapes[OF i] h] .
    then show ?thesis
      using i h l by (simp add: timerOk_def cleanExpiredLocks_def len)
  qed
  then show ?thesis
    using len shapes by (simp add: wellFormed_def cleanExpiredLocks_def shapeOk_cleanSeat)
qed

lemma noTimerFor_handle:
  "wellFormed srv \<Longrightarrow> timeoutId (seats srv ! i) = Undefined \<Longrightarrow> noTimerFor i srv"
  by (auto simp: wellFormed_def timerOk_def noTimerFor_def)

lemma noTimerFor_status:
  "wellFormed srv \<Longrightarrow> status (seats srv ! i) \<noteq> ''locked'' \<Longrightarrow> noTimerFor i srv"
  by (auto simp: wellFormed_def timerOk_def noTimerFor_def)

lemma shape_id_handle:
  "shapeOk j s \<Longrightarrow> seat_id s = Val k \<Longrightarrow> timeoutId s = Undefined \<and> k = int j + 1"
  unfolding shapeOk_def
  by (elim disjE exE conjE) (simp_all add: initialSeat_def seatObject_def)

lemma wellFormed_store:
  assumes "wellFormed srv" "i < 50" "shapeOk i s'" "noTimerFor i srv"
  shows "wellFormed (srv\<lparr>seats := (seats srv)[i := s']\<rparr>)"
  using assms
  by (auto simp: wellFormed_def timerOk_def noTimerFor_def nth_list_update)

lemma noTimerFor_store:
  "noTimerFor i srv \<Longrightarrow> noTimerFor i (srv\<lparr>seats := ss\<rparr>)"
  by (simp add: noTimerFor_def)

lemma clearSeatTimer_seats_length [simp]:
  "length (seats (clearSeatTimer i srv)) = length (seats srv)"
  by (simp add: clearSeatTimer_def split: js.splits)

lemma clearSeatTimer_other:
  "j \<noteq> i \<Longrightarrow> seats (clearSeatTimer i srv) ! j = seats srv ! j"
  by (simp add: clearSeatTimer_def split: js.splits)

lemma clearSeatTimer_store:
  "(clearSeatTimer i srv)\<lparr>seats := (seats (clearSeatTimer i srv))[i := s']\<rparr>
   = srv\<lparr>seats := (seats srv)[i := s'], timers := timers (clearSeatTimer i srv)\<rparr>"
  by (simp add: clearSeatTimer_def split: js.splits)

lemma clearSeatTimer_timers_subset:
  "set (timers (clearSeatTimer i srv)) \<subseteq> set (timers srv)"
  by (auto simp: clearSeatTimer_def split: js.splits)

lemma clearSeatTimer_noTimerFor:
  assumes "wellFormed srv" "i < 50"
  shows "noTimerFor i (clearSeatTimer i srv)"
proof (cases "timeoutId (seats srv ! i)")
  case (Val h)
  then show ?thesis
    using assms by (auto simp: clearSeatTimer_def noTimerFor_def wellFormed_def timerOk_def)
next
  case Undefined
  then show ?thesis
    using noTimerFor_handle[OF assms(1) Undefined] assms
    by (simp add: clearSeatTimer_def wellFormed_def)
next
  case Null
  then show ?thesis
    using assms by (auto simp: clearSeatTimer_def noTimerFor_def wellFormed_def timerOk_def)
qed

lemma wellFormed_clear_store:
  assumes "wellFormed srv" "i < 50" "shapeOk i s'"
  shows "wellFormed ((clearSeatTimer i srv)\<lparr>seats := (seats (clearSeatTimer i srv))[i := s']\<rparr>)"
    and "noTimerFor i ((clearSeatTimer i srv)\<lparr>seats := (seats (clearSeatTimer i srv))[i := s']\<rparr>)"
proof -
  let ?c = "clearSeatTimer i srv"
  have nt: "noTimerFor i ?c" using clearSeatTimer_noTimerFor[OF assms(1,2)] .
  have sub: "set (timers ?c) \<subseteq> set (timers srv)" by (rule clearSeatTimer_timers_subset)
  show "noTimerFor i (?c\<lparr>seats := (seats ?c)[i := s']\<rparr>)"
    using nt by (simp add: noTimerFor_def)
  have "timerOk (srv\<lparr>seats := (seats srv)[i := s'], timers := timers ?c\<rparr>) e"
    if "e \<in> set (timers ?c)" for e
  proof -
    have "timerOk srv e" using that sub assms(1) by (auto simp: wellFormed_def)
    moreover have "fst (snd e) \<noteq> i" using that nt by (simp add: noTimerFor_def)
    ultimately show ?thesis by (simp add: timerOk_def)
  qed
  then show "wellFormed (?c\<lparr>seats := (seats ?c)[i := s']\<rparr>)"
    unfolding clearSeatTimer_store
    using assms by (simp add: wellFormed_def nth_list_update)
qed

lemma shapeOk_apiLocked:
  "shapeOk j s \<Longrightarrow> seat_id s = Val k \<Longrightarrow> status s = ''available'' \<Longrightarrow> u \<noteq> [] \<Longrightarrow>
   shapeOk j (s\<lparr>status := ''locked'', lockedBy := Val u, lockedAt := Val t\<rparr>)"
  unfolding shapeOk_def
  by (elim disjE exE conjE) (simp_all add: initialSeat_def seatObject_def)

lemma shapeOk_apiReleased:
  "shapeOk j s \<Longrightarrow> seat_id s = Val k \<Longrightarrow> status s = ''locked'' \<Longrightarrow>
   shapeOk j (s\<lparr>status := ''available'', lockedBy := Null, lockedAt := Null\<rparr>)"
  unfolding shapeOk_def
  by (elim disjE exE conjE) (simp_all add: initialSeat_def seatObject_def)

lemma shapeOk_apiBooked:
  "shapeOk j s \<Longrightarrow> seat_id s = Val k \<Longrightarrow> status s = ''locked'' \<Longrightarrow> u \<noteq> [] \<Longrightarrow>
   shapeOk j (s\<lparr>status := ''booked'', bookedBy := Val u, lockedBy := Null, lockedAt := Null\<rparr>)"
  unfolding shapeOk_def
  by (elim disjE exE conjE) (simp_all add: initialSeat_def seatObject_def)

lemma found_seat:
  assumes "wellFormed srv" "findSeat k (seats srv) = Some j"
  shows "j < 50" "seat_id (seats srv ! j) = Val k" "shapeOk j (seats srv ! j)"
    "noTimerFor j srv" "k = int j + 1"
proof -
  from findSeat_Some[OF assms(2)] assms(1)
  show j: "j < 50" and k: "seat_id (seats srv ! j) = Val k"
    by (simp_all add: wellFormed_def)
  from assms(1) j show s: "shapeOk j (seats srv ! j)" by (simp add: wellFormed_def)
  from shape_id_handle[OF s k] show "k = int j + 1" by simp
  from shape_id_handle[OF s k] noTimerFor_handle[OF assms(1)] show "noTimerFor j srv" by simp
qed

lemma wellFormed_apiLock:
  assumes "wellFormed srv"
  shows "wellFormed (snd (apiLock seatId userId now srv))"
proof (cases "missing userId")
  case True
  then show ?thesis using assms by (auto simp: apiLock_def missing_def split: option.splits)
next
  case False
  then obtain u where u: "userId = Some u" "u \<noteq> []"
    by (auto simp: missing_def split: option.splits)
  show ?thesis
  proof (cases "findSeat seatId (seats srv)")
    case None
    then show ?thesis using assms u by (simp add: apiLock_def)
  next
    case (Some j)
    note f = found_seat[OF assms Some]
    show ?thesis
    proof (cases "status (seats srv ! j) = ''available''")
      case True
      from wellFormed_store[OF assms f(1) shapeOk_apiLocked[OF f(3) f(2) True u(2)] f(4)]
      show ?thesis using u Some True by (simp add: apiLock_def Let_def)
    next
      case False
      then show ?thesis using assms u Some by (simp add: apiLock_def Let_def)
    qed
  qed
qed

lemma wellFormed_apiConfirm:
  assumes "wellFormed srv"
  shows "wellFormed (snd (apiConfirm seatId userId now srv))"
proof (cases "missing userId")
  case True
  then show ?thesis using assms by (auto simp: apiConfirm_def missing_def split: option.splits)
next
  case False
  then obtain u where u: "userId = Some u" "u \<noteq> []"
    by (auto simp: missing_def split: option.splits)
  show ?thesis
  proof (cases "findSeat seatId (seats srv)")
    case None
    then show ?thesis using assms u by (simp add: apiConfirm_def)
  next
    case (Some j)
    note f = found_seat[OF assms Some]
    show ?thesis
    proof (cases "status (seats srv ! j) = ''locked''")
      case True
      from wellFormed_store[OF assms f(1) shapeOk_apiReleased[OF f(3) f(2) True] f(4)]
        wellFormed_store[OF assms f(1) shapeOk_apiBooked[OF f(3) f(2) True u(2)] f(4)]
      show ?thesis using assms u Some True by (simp add: apiConfirm_def Let_def)
    next
      case False
      then show ?thesis using assms u Some by (simp add: apiConfirm_def Let_def)
    qed
  qed
qed

lemma wellFormed_apiRelease:
  assumes "wellFormed srv"
  shows "wellFormed (snd (apiRelease seatId userId srv))"
proof (cases "missing userId")
  case True
  then show ?thesis using assms by (auto simp: apiRelease_def missing_def split: option.splits)
next
  case False
  then obtain u where u: "userId = Some u" "u \<noteq> []"
    by (auto simp: missing_def split: option.splits)
  show ?thesis
  proof (cases "findSeat seatId (seats srv)")
    case None
    then show ?thesis using assms u by (simp add: apiRelease_def)
  next
    case (Some j)
    note f = found_seat[OF assms Some]
    show ?thesis
    proof (cases "status (seats srv ! j) = ''locked''")
      case True
      from wellFormed_store[OF assms f(1) shapeOk_apiReleased[OF f(3) f(2) True] f(4)]
      show ?thesis using assms u Some True by (simp add: apiRelease_def Let_def)
    next
      case False
      then show ?thesis using assms u Some by (simp add: apiRelease_def Let_def)
    qed
  qed
qed

lemma shapeOk_available: "shapeOk i (seatObject ''available'' Undefined Undefined)"
  by (simp add: shapeOk_def)

lemma shapeOk_booked: "shapeOk i (seatObject ''booked'' Undefined Undefined)"
  by (simp add: shapeOk_def)

lemma userOf_nonempty: "userOf q \<noteq> []"
  by (simp add: userOf_def split: option.splits)

lemma hasSeat_index: "wellFormed srv \<Longrightarrow> hasSeat k srv \<Longrightarrow> nat k < 50"
  by (simp add: hasSeat_def wellFormed_def)

lemma wellFormed_confirm:
  assumes "wellFormed srv"
  shows "wellFormed (snd (confirm k q now srv))"
proof (cases "hasSeat k srv")
  case True
  note i = hasSeat_index[OF assms True]
  show ?thesis
    using assms True wellFormed_clear_store(1)[OF assms i shapeOk_available]
      wellFormed_clear_store(1)[OF assms i shapeOk_booked]
    by (simp add: confirm_def Let_def)
next
  case False
  then show ?thesis using assms by (simp add: confirm_def)
qed

lemma wellFormed_unlock:
  assumes "wellFormed srv"
  shows "wellFormed (snd (unlock k srv))"
proof (cases "hasSeat k srv")
  case True
  note i = hasSeat_index[OF assms True]
  show ?thesis
    using assms True wellFormed_clear_store(1)[OF assms i shapeOk_available]
    by (simp add: unlock_def Let_def)
next
  case False
  then show ?thesis using assms by (simp add: unlock_def)
qed

lemma wellFormed_lock:
  assumes "wellFormed srv"
  shows "wellFormed (snd (lock k q now srv))"
proof (cases "hasSeat k srv")
  case True
  note i = hasSeat_index[OF assms True]
  show ?thesis
    using assms True wellFormed_clear_store(1)[OF assms i shapeOk_available]
    by (simp add: lock_def Let_def)
next
  case False
  then show ?thesis using assms by (simp add: lock_def)
qed

lemma deliver_wellFormed:
  assumes "wellFormed srv"
  shows "\<exists>srv'. deliver h now srv = Some srv' \<and> wellFormed srv'"
proof (cases "find (\<lambda>(h', _, _). h' = h) (timers srv)")
  case None
  then show ?thesis using assms by (simp add: deliver_def)
next
  case (Some e)
  obtain h' i d where e: "e = (h', i, d)" by (cases e) auto
  from Some have mem: "e \<in> set (timers srv)" and hh: "h' = h"
    by (auto simp: find_Some_iff e in_set_conv_nth)
  have ok: "timerOk srv e" using assms mem by (auto simp: wellFormed_def)
  have i: "i < 50" and hd: "timeoutId (seats srv ! i) = Val h"
    using ok assms by (simp_all add: timerOk_def e hh wellFormed_def)
  let ?r = "srv\<lparr>timers := filter (\<lambda>(h', _, _). h' \<noteq> h) (timers srv)\<rparr>"
  have wr: "wellFormed ?r"
    using assms by (auto simp: wellFormed_def timerOk_def)
  have nt: "noTimerFor i ?r"
    using assms hd by (auto simp: noTimerFor_def wellFormed_def timerOk_def)
  have len: "length (seats srv) = 50" using assms by (simp add: wellFormed_def)
  have "deliver h now srv = expiryCallback i now ?r"
    using Some by (simp add: deliver_def e)
  moreover have "\<exists>srv'. expiryCallback i now ?r = Some srv' \<and> wellFormed srv'"
    using wr wellFormed_store[OF wr i shapeOk_available nt] i len
    by (simp add: expiryCallback_def)
  ultimately show ?thesis by simp
qed

lemma step_wellFormed:
  assumes "wellFormed srv"
  shows "\<exists>srv'. step e srv = Some srv' \<and> wellFormed srv'"
proof (cases e)
  case (Expiry h now)
  then show ?thesis using deliver_wellFormed[OF assms] by simp
qed (simp_all add: assms wellFormed_cleanExpiredLocks wellFormed_apiLock wellFormed_apiConfirm
      wellFormed_apiRelease wellFormed_lock wellFormed_confirm wellFormed_unlock)

lemma run_wellFormed:
  assumes "wellFormed srv"
  shows "\<exists>srv'. run evs srv = Some srv' \<and> wellFormed srv'"
  using assms
proof (induction evs arbitrary: srv)
  case Nil
  then show ?case by simp
next
  case (Cons e evs)
  from step_wellFormed[OF Cons.prems] obtain srv1
    where s: "step e srv = Some srv1" and w: "wellFormed srv1" by blast
  from Cons.IH[OF w] show ?case using s by simp
qed

lemma reachable_wellFormed:
  "run evs startup = Some srv \<Longrightarrow> wellFormed srv"
  using run_wellFormed[OF wellFormed_startup, of evs] by auto

lemma run_total: "\<exists>srv. run evs startup = Some srv"
  using run_wellFormed[OF wellFormed_startup, of evs] by auto

lemma shapeOk_facts:
  assumes "shapeOk j s"
  shows "status s = ''available'' \<or> status s = ''locked'' \<or> status s = ''booked''"
    and "status s = ''available'' \<Longrightarrow> \<not> holderSet s \<and> \<not> expirySet s"
    and "status s = ''locked'' \<Longrightarrow> isSet (lockedBy s) \<and> expirySet s"
    and "status s = ''booked'' \<Longrightarrow> \<not> expirySet s \<and> \<not> isSet (lockedBy s)"
  using assms unfolding shapeOk_def holderSet_def expirySet_def
  by (elim disjE exE conjE; simp add: initialSeat_def seatObject_def)+

text \<open>
  What every run from startup keeps, for every seat: the status is one of the three;
  an available seat has no holder and no expiry; a locked seat has both; a booked seat
  has no expiry. (A booked seat may have no holder: see claim C1.)
\<close>

lemma reachable_seat_invariant:
  assumes "run evs startup = Some srv" and "j < length (seats srv)"
  shows "(status (seats srv ! j) = ''available'' \<or> status (seats srv ! j) = ''locked''
            \<or> status (seats srv ! j) = ''booked'')
       \<and> (status (seats srv ! j) = ''available'' \<longrightarrow>
            \<not> holderSet (seats srv ! j) \<and> \<not> expirySet (seats srv ! j))
       \<and> (status (seats srv ! j) = ''locked'' \<longrightarrow>
            holderSet (seats srv ! j) \<and> expirySet (seats srv ! j))
       \<and> (status (seats srv ! j) = ''booked'' \<longrightarrow> \<not> expirySet (seats srv ! j))"
proof -
  have w: "wellFormed srv" using reachable_wellFormed[OF assms(1)] .
  then have "shapeOk j (seats srv ! j)" using assms(2) by (simp add: wellFormed_def)
  from shapeOk_facts[OF this] show ?thesis by (auto simp: holderSet_def)
qed

text \<open>
  The state of the example is well formed, as is every state that adds a timer-based lock
  with its timer to a seat that has no timer pending.
\<close>

lemma wellFormed_timerLock:
  assumes "wellFormed srv" "i < 50" "noTimerFor i srv" "u \<noteq> []"
  shows "wellFormed
           (srv\<lparr>seats := (seats srv)[i := (seatObject ''locked'' (Val u) (Val t))\<lparr>timeoutId := Val h\<rparr>],
                timers := timers srv @ [(h, i, d)]\<rparr>)"
proof -
  let ?s = "(seatObject ''locked'' (Val u) (Val t))\<lparr>timeoutId := Val h\<rparr>"
  let ?r = "srv\<lparr>seats := (seats srv)[i := ?s], timers := timers srv @ [(h, i, d)]\<rparr>"
  have sh: "shapeOk i ?s" using assms(4) by (auto simp: shapeOk_def)
  have len: "length (seats srv) = 50" using assms(1) by (simp add: wellFormed_def)
  have old: "timerOk ?r e" if "e \<in> set (timers srv)" for e
  proof -
    have "timerOk srv e" using that assms(1) by (auto simp: wellFormed_def)
    moreover have "fst (snd e) \<noteq> i" using that assms(3) by (simp add: noTimerFor_def)
    ultimately show ?thesis by (simp add: timerOk_def)
  qed
  have new: "timerOk ?r (h, i, d)"
    using assms(2) len by (simp add: timerOk_def seatObject_def)
  have shapes: "shapeOk j (seats ?r ! j)" if "j < 50" for j
    using that assms(1,2) sh len by (auto simp: nth_list_update wellFormed_def)
  show ?thesis
    unfolding wellFormed_def using len shapes old new by auto
qed

lemma wellFormed_timerLockExample: "wellFormed timerLockExample"
proof -
  have n: "noTimerFor 0 startup" by (simp add: noTimerFor_def startup_def)
  have a: "''alice'' \<noteq> []" by simp
  from wellFormed_timerLock[OF wellFormed_startup _ n a, where t=61000 and h=7 and d=61050]
  show ?thesis by (simp add: timerLockExample_def startup_def)
qed

text \<open>
  No run of the source stores a timer-based lock: Lock throws before it stores anything,
  and no other handler writes \<^verbatim>\<open>lockExpiresAt\<close> or arms a timer.
\<close>

lemma plainSeat_updates [simp]:
  "plainSeat (s\<lparr>status := a\<rparr>) = plainSeat s"
  "plainSeat (s\<lparr>lockedBy := b\<rparr>) = plainSeat s"
  "plainSeat (s\<lparr>lockedAt := c\<rparr>) = plainSeat s"
  "plainSeat (s\<lparr>bookedBy := d\<rparr>) = plainSeat s"
  by (simp_all add: plainSeat_def)

lemma plainSeat_object [simp]: "plainSeat (seatObject st h Undefined)"
  by (simp add: plainSeat_def seatObject_def)

lemma noTimerLocks_nth:
  "noTimerLocks srv \<Longrightarrow> j < length (seats srv) \<Longrightarrow> plainSeat (seats srv ! j)"
  by (simp add: noTimerLocks_def list_all_length)

lemma noTimerLocks_store:
  "noTimerLocks srv \<Longrightarrow> plainSeat s \<Longrightarrow> noTimerLocks (srv\<lparr>seats := (seats srv)[i := s]\<rparr>)"
  by (auto simp: noTimerLocks_def list_all_iff dest: set_update_subset_insert[THEN subsetD])

lemma noTimerLocks_clear: "noTimerLocks srv \<Longrightarrow> clearSeatTimer i srv = srv"
  by (auto simp: clearSeatTimer_def plainSeat_def dest: noTimerLocks_nth split: js.splits)

lemma noTimerLocks_startup: "noTimerLocks startup"
  by (simp add: noTimerLocks_def startup_def list_all_iff initialSeat_def plainSeat_def)

lemma noTimerLocks_cleanExpiredLocks:
  "noTimerLocks srv \<Longrightarrow> noTimerLocks (cleanExpiredLocks now srv)"
  by (auto simp: noTimerLocks_def cleanExpiredLocks_def list_all_iff cleanSeat_def)

lemma noTimerLocks_apiLock: "noTimerLocks srv \<Longrightarrow> noTimerLocks (snd (apiLock seatId userId now srv))"
  by (auto simp: apiLock_def Let_def noTimerLocks_store noTimerLocks_nth
      dest: findSeat_Some split: option.splits)

lemma noTimerLocks_apiConfirm:
  "noTimerLocks srv \<Longrightarrow> noTimerLocks (snd (apiConfirm seatId userId now srv))"
  by (auto simp: apiConfirm_def Let_def noTimerLocks_store noTimerLocks_nth
      dest: findSeat_Some split: option.splits)

lemma noTimerLocks_apiRelease:
  "noTimerLocks srv \<Longrightarrow> noTimerLocks (snd (apiRelease seatId userId srv))"
  by (auto simp: apiRelease_def Let_def noTimerLocks_store noTimerLocks_nth
      dest: findSeat_Some split: option.splits)

lemma noTimerLocks_lock: "noTimerLocks srv \<Longrightarrow> noTimerLocks (snd (lock k q now srv))"
  by (simp add: lock_def Let_def noTimerLocks_clear noTimerLocks_store)

lemma noTimerLocks_confirm: "noTimerLocks srv \<Longrightarrow> noTimerLocks (snd (confirm k q now srv))"
  by (simp add: confirm_def Let_def noTimerLocks_clear noTimerLocks_store)

lemma noTimerLocks_unlock: "noTimerLocks srv \<Longrightarrow> noTimerLocks (snd (unlock k srv))"
  by (simp add: unlock_def Let_def noTimerLocks_clear noTimerLocks_store)

lemma noTimerLocks_deliver: "noTimerLocks srv \<Longrightarrow> deliver h now srv = Some srv"
  by (simp add: deliver_def noTimerLocks_def)

lemma noTimerLocks_step:
  "noTimerLocks srv \<Longrightarrow> step e srv = Some srv' \<Longrightarrow> noTimerLocks srv'"
  by (cases e)
    (auto simp: noTimerLocks_cleanExpiredLocks noTimerLocks_apiLock noTimerLocks_apiConfirm
      noTimerLocks_apiRelease noTimerLocks_lock noTimerLocks_confirm noTimerLocks_unlock
      noTimerLocks_deliver)

lemma noTimerLocks_run:
  "noTimerLocks srv \<Longrightarrow> run evs srv = Some srv' \<Longrightarrow> noTimerLocks srv'"
proof (induction evs arbitrary: srv)
  case Nil
  then show ?case by simp
next
  case (Cons e evs)
  from Cons.prems(2) obtain srv1 where s: "step e srv = Some srv1"
    and r: "run evs srv1 = Some srv'"
    by (auto split: option.splits)
  from Cons.IH[OF noTimerLocks_step[OF Cons.prems(1) s] r] show ?case .
qed

lemma reachable_noTimerLocks: "run evs startup = Some srv \<Longrightarrow> noTimerLocks srv"
  using noTimerLocks_run[OF noTimerLocks_startup] .

text \<open>
  The timer-based handlers read \<^verbatim>\<open>lockExpiresAt\<close> through a truthiness test, which
  the timestamp 0 fails. No run stores the timestamp 0 (no run stores a timestamp).
\<close>

lemma reachable_expiry_positive:
  assumes "run evs startup = Some srv"
    and "j < length (seats srv)" and "lockExpiresAt (seats srv ! j) = Val t"
  shows "0 < t"
  using noTimerLocks_nth[OF reachable_noTimerLocks[OF assms(1)] assms(2)] assms(3)
  by (simp add: plainSeat_def)

section \<open>Facts about the handlers\<close>

lemma expiredAt_Val: "expiredAt (Val t) now \<longleftrightarrow> t \<noteq> 0 \<and> t \<le> now"
  by simp

lemma not_expiredAt: "\<not> (\<exists>t. x = Val t \<and> t \<le> now) \<Longrightarrow> \<not> expiredAt x now"
  by (cases x) auto

lemma confirm_success:
  assumes "hasSeat k srv" and "status (seats srv ! nat k) = ''locked''"
    and "\<not> expiredAt (lockExpiresAt (seats srv ! nat k)) now"
    and "lockedBy (seats srv ! nat k) = Val (userOf q)"
  shows "confirm k q now srv =
     ((200, Message (SeatBookedSuccessfully k)),
      (clearSeatTimer (nat k) srv)
         \<lparr>seats := (seats (clearSeatTimer (nat k) srv))
            [nat k := seatObject ''booked'' Undefined Undefined]\<rparr>)"
  using assms by (simp add: confirm_def Let_def)

lemma findSeat_update:
  "findSeat k ss = Some j \<Longrightarrow> seat_id s = Val k \<Longrightarrow> findSeat k (ss[j := s]) = Some j"
proof (induction ss arbitrary: j)
  case Nil
  then show ?case by simp
next
  case (Cons a ss)
  then show ?case by (cases j) (auto split: if_splits)
qed

lemma findSeat_out_of_range:
  assumes "wellFormed srv" and "seatId < 1 \<or> 50 < seatId"
  shows "findSeat seatId (seats srv) = None"
proof -
  have "seat_id s \<noteq> Val seatId" if "s \<in> set (seats srv)" for s
  proof
    assume v: "seat_id s = Val seatId"
    from that obtain j where j: "j < length (seats srv)" "s = seats srv ! j"
      by (auto simp: in_set_conv_nth)
    then have "shapeOk j s" using assms(1) by (simp add: wellFormed_def)
    from shape_id_handle[OF this v] j assms show False by (simp add: wellFormed_def)
  qed
  then show ?thesis by (simp add: findSeat_None)
qed

lemma hasSeat_range: "wellFormed srv \<Longrightarrow> hasSeat k srv \<longleftrightarrow> 0 \<le> k \<and> k < 50"
  by (auto simp: hasSeat_def wellFormed_def)

lemma userOf_missing: "missing q \<Longrightarrow> userOf q = ''anonymous''"
  by (auto simp: missing_def userOf_def split: option.splits)

lemma cleanExpiredLocks_normalizes:
  assumes "j < length (seats srv)"
  shows "\<not> (status (seats (cleanExpiredLocks now srv) ! j) = ''locked''
           \<and> elapsedOver now (lockedAt (seats (cleanExpiredLocks now srv) ! j)))"
  using assms by (simp add: cleanExpiredLocks_def cleanSeat_def)

text \<open>The refusals of Lock: a booked seat, and a lock that has not expired.\<close>

lemma lock_refusals:
  assumes "hasSeat k srv"
  shows "(status (seats srv ! nat k) = ''booked'' \<longrightarrow>
            lock k q now srv = ((409, Message (SeatAlreadyBooked k)), srv))
       \<and> (status (seats srv ! nat k) = ''locked''
            \<and> \<not> expiredAt (lockExpiresAt (seats srv ! nat k)) now \<longrightarrow>
            lock k q now srv = ((423, Message (SeatAlreadyLocked k)), srv))"
  using assms by (simp add: lock_def Let_def)

text \<open>Release of a seat that the handler finds by its id.\<close>

lemma apiRelease_found:
  assumes "findSeat seatId (seats srv) = Some j" and "u \<noteq> []"
  shows
    "(status (seats srv ! j) \<noteq> ''locked'' \<longrightarrow>
        apiRelease seatId (Some u) srv = ((400, Failure SeatIsNotLocked), srv))
   \<and> (status (seats srv ! j) = ''locked'' \<and> lockedBy (seats srv ! j) \<noteq> Val u \<longrightarrow>
        apiRelease seatId (Some u) srv = ((403, Failure LockedByAnotherUser), srv))
   \<and> (status (seats srv ! j) = ''locked'' \<and> lockedBy (seats srv ! j) = Val u \<longrightarrow>
        apiRelease seatId (Some u) srv
          = ((200, Success SeatReleased
                ((seats srv ! j)\<lparr>status := ''available'', lockedBy := Null, lockedAt := Null\<rparr>)),
             srv\<lparr>seats := (seats srv)
                [j := (seats srv ! j)\<lparr>status := ''available'', lockedBy := Null,
                                       lockedAt := Null\<rparr>]\<rparr>))"
  using assms by (simp add: apiRelease_def Let_def)

text \<open>
  Lock stores no lock: on a seat that is neither booked nor locked it throws, and it
  never answers 200.
\<close>

lemma lock_throws:
  assumes "hasSeat k srv" and "status (seats srv ! nat k) = ''available''"
  shows "lock k q now srv = ((500, Uncaught ReferenceError), srv)"
  using assms by (simp add: lock_def Let_def)

lemma lock_never_answers_200: "fst (fst (lock k q now srv)) \<noteq> 200"
  by (simp add: lock_def Let_def)

text \<open>Release changes no timer.\<close>

lemma apiRelease_timers: "timers (snd (apiRelease seatId userId srv)) = timers srv"
  by (simp add: apiRelease_def Let_def split: option.splits)

section \<open>The first requests after startup\<close>

lemma startup_seats_length: "length (seats startup) = 50"
  by (simp add: startup_def)

lemma startup_seat: "j < 50 \<Longrightarrow> seats startup ! j = initialSeat j"
  by (simp add: startup_def)

lemma startup_timers: "timers startup = []"
  by (simp add: startup_def)

lemma cleanSeat_initialSeat: "cleanSeat now (initialSeat j) = initialSeat j"
  by (simp add: cleanSeat_def initialSeat_def)

lemma cleanExpiredLocks_startup: "cleanExpiredLocks now startup = startup"
  by (simp add: cleanExpiredLocks_def startup_def cleanSeat_initialSeat)

lemma findSeat_startup: "findSeat 1 (seats startup) = Some 0"
  by (simp add: startup_def upt_conv_Cons initialSeat_def)

lemma apiLock_startup:
  "apiLock 1 (Some u) 1000 startup =
     (if u = [] then ((400, Failure UserIdRequired), startup)
      else ((200, Success SeatLockedSuccessfully
              ((initialSeat 0)\<lparr>status := ''locked'', lockedBy := Val u, lockedAt := Val 1000\<rparr>)),
            startup\<lparr>seats := (seats startup)
                 [0 := (initialSeat 0)\<lparr>status := ''locked'', lockedBy := Val u,
                                        lockedAt := Val 1000\<rparr>]\<rparr>))"
  by (simp add: apiLock_def findSeat_startup startup_seat Let_def) (simp add: initialSeat_def)

lemma cleanExpiredLocks_apiLocked:
  assumes "now \<le> 61000"
  shows "cleanExpiredLocks now
           (startup\<lparr>seats := (seats startup)
                 [0 := (initialSeat 0)\<lparr>status := ''locked'', lockedBy := Val u,
                                        lockedAt := Val 1000\<rparr>]\<rparr>)
         = startup\<lparr>seats := (seats startup)
                 [0 := (initialSeat 0)\<lparr>status := ''locked'', lockedBy := Val u,
                                        lockedAt := Val 1000\<rparr>]\<rparr>"
proof -
  have s: "map (cleanSeat now) (seats startup) = seats startup"
    by (simp add: startup_def cleanSeat_initialSeat)
  show ?thesis
    using assms
    by (simp add: cleanExpiredLocks_def map_update s cleanSeat_def LOCK_EXPIRATION_TIME_def)
qed

lemma confirm_apiLocked:
  "confirm 0 q 2000
     (startup\<lparr>seats := (seats startup)
         [0 := (initialSeat 0)\<lparr>status := ''locked'', lockedBy := Val (userOf q),
                                lockedAt := Val 1000\<rparr>]\<rparr>)
   = ((200, Message (SeatBookedSuccessfully 0)),
      startup\<lparr>seats := (seats startup)[0 := seatObject ''booked'' Undefined Undefined]\<rparr>)"
  by (simp add: confirm_def hasSeat_def startup_seats_length Let_def clearSeatTimer_def
      initialSeat_def)

lemma unlock_apiLocked:
  "unlock 0
     (startup\<lparr>seats := (seats startup)
         [0 := (initialSeat 0)\<lparr>status := ''locked'', lockedBy := Val u, lockedAt := Val 1000\<rparr>]\<rparr>)
   = ((200, Message (SeatLockCleared 0)),
      startup\<lparr>seats := (seats startup)[0 := seatObject ''available'' Undefined Undefined]\<rparr>)"
  by (simp add: unlock_def hasSeat_def startup_seats_length Let_def clearSeatTimer_def
      initialSeat_def)

lemma cleanExpiredLocks_replaced:
  "cleanExpiredLocks now
     (startup\<lparr>seats := (seats startup)[0 := seatObject ''available'' Undefined Undefined]\<rparr>)
   = startup\<lparr>seats := (seats startup)[0 := seatObject ''available'' Undefined Undefined]\<rparr>"
proof -
  have s: "map (cleanSeat now) (seats startup) = seats startup"
    by (simp add: startup_def cleanSeat_initialSeat)
  show ?thesis
    by (simp add: cleanExpiredLocks_def map_update s cleanSeat_def seatObject_def)
qed

lemma findSeat_replaced:
  "findSeat 1 ((seats startup)[0 := seatObject st h e]) = None"
proof -
  have "seat_id s \<noteq> Val 1" if "s \<in> set ((seats startup)[0 := seatObject st h e])" for s
  proof -
    from that obtain j where j: "j < 50" "s = (seats startup)[0 := seatObject st h e] ! j"
      by (auto simp: in_set_conv_nth startup_seats_length)
    then show ?thesis
      by (cases "j = 0") (simp_all add: startup_seats_length startup_seat seatObject_def initialSeat_def)
  qed
  then show ?thesis by (simp add: findSeat_None)
qed

section \<open>The claims\<close>

text \<open>
  Claim C1. In every state reachable from startup the status of every seat is one of
  available, locked, booked; a holder is set if and only if the status is not available;
  an expiry is set if and only if the status is locked. The code keeps all of this
  (\<open>reachable_seat_invariant\<close>) but for the holder of a booked seat:
  \<^verbatim>\<open>POST /confirm/:id\<close> stores \<^verbatim>\<open>{ status: 'booked' }\<close>. After alice locks seat 1
  through \<^verbatim>\<open>POST /api/seats/1/lock\<close> and confirms it through \<^verbatim>\<open>POST /confirm/0\<close>
  (the same object of the table), the seat is booked and has no holder.
\<close>

theorem booked_seat_without_holder:
  "map_option (\<lambda>srv. (status (seats srv ! 0), holderSet (seats srv ! 0), expirySet (seats srv ! 0)))
     (run [Sweep 1000, ApiLock 1 (Some ''alice'') 1000,
           Sweep 2000, Confirm 0 (Some ''alice'') 2000] startup)
   = Some (''booked'', False, False)"
proof -
  have u: "userOf (Some ''alice'') = ''alice''" by (simp add: userOf_def)
  show ?thesis
    using confirm_apiLocked[of "Some ''alice''"]
    by (simp add: cleanExpiredLocks_startup apiLock_startup cleanExpiredLocks_apiLocked u
        startup_seats_length holderSet_def expirySet_def seatObject_def)
qed


text \<open>
  Claim C2. When the expiry callback armed by Lock runs for a seat, it stores
  \<^verbatim>\<open>{ status: 'available' }\<close> (no holder, no expiry) only if the seat is still locked
  and its \<^verbatim>\<open>lockExpiresAt\<close> is at or before the current time; in every other case
  (the seat was confirmed, released, unlocked, or locked again with a later deadline)
  the whole state, and so the seat's record, is left as it was.
\<close>

theorem expiryCallback_recheck:
  assumes "seatId < length (seats srv)"
  shows
    "(status (seats srv ! seatId) = ''locked''
        \<and> (\<exists>t. lockExpiresAt (seats srv ! seatId) = Val t \<and> t \<noteq> 0 \<and> t \<le> now)
      \<longrightarrow> expiryCallback seatId now srv
            = Some (srv\<lparr>seats := (seats srv)[seatId := seatObject ''available'' Undefined Undefined]\<rparr>))
   \<and> (\<not> (status (seats srv ! seatId) = ''locked''
           \<and> (\<exists>t. lockExpiresAt (seats srv ! seatId) = Val t \<and> t \<le> now))
      \<longrightarrow> expiryCallback seatId now srv = Some srv)
   \<and> (expiryCallback seatId now srv \<noteq> Some srv
      \<longrightarrow> status (seats srv ! seatId) = ''locked''
          \<and> (\<exists>t. lockExpiresAt (seats srv ! seatId) = Val t \<and> t \<le> now)
          \<and> expiryCallback seatId now srv
            = Some (srv\<lparr>seats := (seats srv)[seatId := seatObject ''available'' Undefined Undefined]\<rparr>))"
proof (intro conjI impI)
  assume "status (seats srv ! seatId) = ''locked''
        \<and> (\<exists>t. lockExpiresAt (seats srv ! seatId) = Val t \<and> t \<noteq> 0 \<and> t \<le> now)"
  then show "expiryCallback seatId now srv
            = Some (srv\<lparr>seats := (seats srv)[seatId := seatObject ''available'' Undefined Undefined]\<rparr>)"
    using assms by (auto simp: expiryCallback_def)
next
  assume "\<not> (status (seats srv ! seatId) = ''locked''
           \<and> (\<exists>t. lockExpiresAt (seats srv ! seatId) = Val t \<and> t \<le> now))"
  then have "\<not> (status (seats srv ! seatId) = ''locked''
           \<and> expiredAt (lockExpiresAt (seats srv ! seatId)) now)"
    using not_expiredAt[of "lockExpiresAt (seats srv ! seatId)" now] by blast
  then show "expiryCallback seatId now srv = Some srv"
    using assms by (auto simp: expiryCallback_def)
next
  assume ch: "expiryCallback seatId now srv \<noteq> Some srv"
  then have c: "status (seats srv ! seatId) = ''locked''"
      "expiredAt (lockExpiresAt (seats srv ! seatId)) now"
    using assms by (auto simp: expiryCallback_def split: if_splits)
  from c(1) show "status (seats srv ! seatId) = ''locked''" .
  from c(2) show "\<exists>t. lockExpiresAt (seats srv ! seatId) = Val t \<and> t \<le> now"
    by (cases "lockExpiresAt (seats srv ! seatId)") auto
  from c show "expiryCallback seatId now srv
            = Some (srv\<lparr>seats := (seats srv)[seatId := seatObject ''available'' Undefined Undefined]\<rparr>)"
    using assms by (simp add: expiryCallback_def)
qed

theorem expiryCallback_recheck_witness:
  "expiryCallback 0 61050 timerLockExample
     = Some (timerLockExample
              \<lparr>seats := (seats timerLockExample)[0 := seatObject ''available'' Undefined Undefined]\<rparr>)
   \<and> expiryCallback 0 2000 timerLockExample = Some timerLockExample
   \<and> expiryCallback 0 61050 startup = Some startup"
proof -
  have len: "0 < length (seats timerLockExample)"
    by (simp add: timerLockExample_def startup_seats_length)
  have len0: "0 < length (seats startup)" by (simp add: startup_seats_length)
  have p1: "status (seats timerLockExample ! 0) = ''locked''
      \<and> (\<exists>t. lockExpiresAt (seats timerLockExample ! 0) = Val t \<and> t \<noteq> 0 \<and> t \<le> 61050)"
    by (simp add: timerLockExample_def startup_seats_length seatObject_def)
  have p2: "\<not> (status (seats timerLockExample ! 0) = ''locked''
      \<and> (\<exists>t. lockExpiresAt (seats timerLockExample ! 0) = Val t \<and> t \<le> 2000))"
    by (simp add: timerLockExample_def startup_seats_length seatObject_def)
  have p3: "\<not> (status (seats startup ! 0) = ''locked''
      \<and> (\<exists>t. lockExpiresAt (seats startup ! 0) = Val t \<and> t \<le> 61050))"
    by (simp add: startup_seat initialSeat_def)
  from expiryCallback_recheck[OF len, of 61050] p1
  have c1: "expiryCallback 0 61050 timerLockExample
     = Some (timerLockExample
              \<lparr>seats := (seats timerLockExample)[0 := seatObject ''available'' Undefined Undefined]\<rparr>)"
    by blast
  from expiryCallback_recheck[OF len, of 2000] p2
  have c2: "expiryCallback 0 2000 timerLockExample = Some timerLockExample"
    by blast
  from expiryCallback_recheck[OF len0, of 61050] p3
  have c3: "expiryCallback 0 61050 startup = Some startup"
    by blast
  show ?thesis using c1 c2 c3 by blast
qed

text \<open>
  Claim C3. Lock on an available seat succeeds, the seat becomes locked with holder =
  user and expiry = now + TTL, and the updated record is returned; an expired lock is
  released first; a live lock gives AlreadyLocked and a booking AlreadyBooked. The code
  gives the two failures (\<open>lock_refusals\<close>) but never the success: on an available
  seat line 551 throws (\<^verbatim>\<open>LOCK_TTL\<close> is declared nowhere), the answer is 500 and the
  seat stays available. At startup, \<^verbatim>\<open>POST /lock/0?user=alice\<close>:
\<close>

theorem lock_of_available_seat_throws:
  "status (seats startup ! 0) = ''available''
   \<and> lock 0 (Some ''alice'') 1000 (cleanExpiredLocks 1000 startup)
       = ((500, Uncaught ReferenceError), startup)"
proof -
  have h: "hasSeat 0 startup" by (simp add: hasSeat_def startup_seats_length)
  have s: "status (seats startup ! nat 0) = ''available''"
    by (simp add: startup_seat initialSeat_def)
  from lock_throws[OF h s] s show ?thesis by (simp add: cleanExpiredLocks_startup)
qed

text \<open>
  Claim C4. For a seat locked by u and not expired, Confirm by u succeeds, the seat
  becomes booked, the expiry is cleared, the timer is cancelled, and u is kept as the
  owner of the booking. \<^verbatim>\<open>POST /confirm/:id\<close> does all but the last
  (\<open>confirm_success\<close>): the record it stores has neither \<^verbatim>\<open>lockedBy\<close> nor
  \<^verbatim>\<open>bookedBy\<close>, while \<^verbatim>\<open>POST /api/seats/:id/confirm\<close> keeps the user in
  \<^verbatim>\<open>bookedBy\<close>. With seat 1 locked by alice through \<^verbatim>\<open>POST /api/seats/1/lock\<close> at
  1000, at 2000:
\<close>

theorem confirm_drops_holder:
  "status (seats (cleanExpiredLocks 2000
              (snd (apiLock 1 (Some ''alice'') 1000 (cleanExpiredLocks 1000 startup)))) ! 0)
     = ''locked''
   \<and> lockedBy (seats (cleanExpiredLocks 2000
              (snd (apiLock 1 (Some ''alice'') 1000 (cleanExpiredLocks 1000 startup)))) ! 0)
     = Val ''alice''
   \<and> fst (confirm 0 (Some ''alice'') 2000 (cleanExpiredLocks 2000
              (snd (apiLock 1 (Some ''alice'') 1000 (cleanExpiredLocks 1000 startup)))))
     = (200, Message (SeatBookedSuccessfully 0))
   \<and> seats (snd (confirm 0 (Some ''alice'') 2000 (cleanExpiredLocks 2000
              (snd (apiLock 1 (Some ''alice'') 1000 (cleanExpiredLocks 1000 startup)))))) ! 0
     = \<lparr>seat_id = Undefined, status = ''booked'', lockedBy = Undefined, lockedAt = Undefined,
        bookedBy = Undefined, lockExpiresAt = Undefined, timeoutId = Undefined\<rparr>
   \<and> bookedBy (seats (snd (apiConfirm 1 (Some ''alice'') 2000 (cleanExpiredLocks 2000
              (snd (apiLock 1 (Some ''alice'') 1000 (cleanExpiredLocks 1000 startup)))))) ! 0)
     = Val ''alice''"
proof -
  let ?l = "(initialSeat 0)\<lparr>status := ''locked'', lockedBy := Val ''alice'', lockedAt := Val 1000\<rparr>"
  let ?a = "startup\<lparr>seats := (seats startup)[0 := ?l]\<rparr>"
  have a: "cleanExpiredLocks 2000
              (snd (apiLock 1 (Some ''alice'') 1000 (cleanExpiredLocks 1000 startup))) = ?a"
    by (simp add: cleanExpiredLocks_startup apiLock_startup cleanExpiredLocks_apiLocked)
  have u: "userOf (Some ''alice'') = ''alice''" by (simp add: userOf_def)
  have f: "findSeat 1 ((seats startup)[0 := ?l]) = Some 0"
    by (rule findSeat_update[OF findSeat_startup]) (simp add: initialSeat_def)
  have b: "bookedBy (seats (snd (apiConfirm 1 (Some ''alice'') 2000 ?a)) ! 0) = Val ''alice''"
    by (simp add: apiConfirm_def f startup_seats_length Let_def LOCK_EXPIRATION_TIME_def)
  show ?thesis
    unfolding a using confirm_apiLocked[of "Some ''alice''"] b
    by (simp add: u startup_seats_length seatObject_def)
qed


text \<open>
  Claim C5. The failure cases of \<^verbatim>\<open>POST /confirm/:id\<close>, in the order of the checks: a
  seat that is not locked (a booked one too) gives 400 (NotLocked), the state unchanged;
  otherwise, an expiry timestamp (not 0) at or before now gives 408 (LockExpired, for
  every caller, the holder or not), the seat made available and no timer left for it;
  otherwise a holder other than the caller gives 403 (WrongHolder), the state unchanged.
  This holds in every well-formed state; every state a run reaches is well formed
  (\<open>reachable_wellFormed\<close>).
\<close>

theorem confirm_failures:
  assumes "wellFormed srv" and "hasSeat k srv"
  shows
    "(status (seats srv ! nat k) \<noteq> ''locked'' \<longrightarrow>
        confirm k q now srv = ((400, Message NotLockedCannotBeBooked), srv))
   \<and> (status (seats srv ! nat k) = ''locked''
        \<and> lockExpiresAt (seats srv ! nat k) = Val t \<and> t \<noteq> 0 \<and> t \<le> now \<longrightarrow>
        fst (confirm k q now srv) = (408, Message LockExpiredLockAgain)
      \<and> seats (snd (confirm k q now srv))
          = (seats srv)[nat k := seatObject ''available'' Undefined Undefined]
      \<and> noTimerFor (nat k) (snd (confirm k q now srv)))
   \<and> (status (seats srv ! nat k) = ''locked''
        \<and> \<not> expiredAt (lockExpiresAt (seats srv ! nat k)) now
        \<and> lockedBy (seats srv ! nat k) \<noteq> Val (userOf q) \<longrightarrow>
        confirm k q now srv = ((403, Message SeatLockedByAnotherUser), srv))"
proof -
  note w = assms(1)
  note i = hasSeat_index[OF w assms(2)]
  let ?x = "(clearSeatTimer (nat k) srv)
                 \<lparr>seats := (seats (clearSeatTimer (nat k) srv))
                    [nat k := seatObject ''available'' Undefined Undefined]\<rparr>"
  have nt: "noTimerFor (nat k) ?x"
    using wellFormed_clear_store(2)[OF w i shapeOk_available] .
  have sx: "seats ?x = (seats srv)[nat k := seatObject ''available'' Undefined Undefined]"
    by (simp add: clearSeatTimer_store)
  have e: "confirm k q now srv = ((408, Message LockExpiredLockAgain), ?x)"
    if "status (seats srv ! nat k) = ''locked''" "lockExpiresAt (seats srv ! nat k) = Val t"
       "t \<noteq> 0" "t \<le> now"
    using that assms(2) by (simp add: confirm_def Let_def)
  show ?thesis
  proof (intro conjI impI)
    assume "status (seats srv ! nat k) \<noteq> ''locked''"
    then show "confirm k q now srv = ((400, Message NotLockedCannotBeBooked), srv)"
      using assms(2) by (simp add: confirm_def Let_def)
  next
    assume "status (seats srv ! nat k) = ''locked''
        \<and> lockExpiresAt (seats srv ! nat k) = Val t \<and> t \<noteq> 0 \<and> t \<le> now"
    then have e': "confirm k q now srv = ((408, Message LockExpiredLockAgain), ?x)"
      using e by blast
    show "fst (confirm k q now srv) = (408, Message LockExpiredLockAgain)"
      by (simp add: e')
    show "seats (snd (confirm k q now srv))
          = (seats srv)[nat k := seatObject ''available'' Undefined Undefined]"
      using sx by (simp add: e')
    show "noTimerFor (nat k) (snd (confirm k q now srv))"
      using nt by (simp add: e')
  next
    assume "status (seats srv ! nat k) = ''locked''
        \<and> \<not> expiredAt (lockExpiresAt (seats srv ! nat k)) now
        \<and> lockedBy (seats srv ! nat k) \<noteq> Val (userOf q)"
    then show "confirm k q now srv = ((403, Message SeatLockedByAnotherUser), srv)"
      using assms(2) by (simp add: confirm_def Let_def)
  qed
qed

theorem confirm_failures_witness:
  "confirm 1 (Some ''alice'') 2000 startup = ((400, Message NotLockedCannotBeBooked), startup)
   \<and> fst (confirm 0 (Some ''bob'') 61000 timerLockExample) = (408, Message LockExpiredLockAgain)
   \<and> status (seats (snd (confirm 0 (Some ''bob'') 61000 timerLockExample)) ! 0) = ''available''
   \<and> timers (snd (confirm 0 (Some ''bob'') 61000 timerLockExample)) = []
   \<and> confirm 0 (Some ''bob'') 2000 timerLockExample
       = ((403, Message SeatLockedByAnotherUser), timerLockExample)
   \<and> confirm 0 (Some ''bob'') 2000 (snd (apiLock 1 (Some ''alice'') 1000 startup))
       = ((403, Message SeatLockedByAnotherUser), snd (apiLock 1 (Some ''alice'') 1000 startup))"
proof -
  let ?ex = "timerLockExample"
  let ?api = "snd (apiLock 1 (Some ''alice'') 1000 startup)"
  have r: "run [ApiLock 1 (Some ''alice'') 1000] startup = Some ?api" by simp
  note wa = reachable_wellFormed[OF r]
  have h1: "hasSeat 1 startup" by (simp add: hasSeat_def startup_seats_length)
  have h0: "hasSeat 0 ?ex"
    by (simp add: hasSeat_def timerLockExample_def startup_seats_length)
  have ha: "hasSeat 0 ?api"
    by (simp add: hasSeat_def apiLock_startup startup_seats_length)
  have p1: "status (seats startup ! nat 1) \<noteq> ''locked''"
    by (simp add: startup_seat initialSeat_def)
  have p2: "status (seats ?ex ! nat 0) = ''locked''
      \<and> lockExpiresAt (seats ?ex ! nat 0) = Val 61000 \<and> (61000::int) \<noteq> 0
      \<and> (61000::int) \<le> 61000"
    by (simp add: timerLockExample_def startup_seats_length seatObject_def)
  have p3: "status (seats ?ex ! nat 0) = ''locked''
      \<and> \<not> expiredAt (lockExpiresAt (seats ?ex ! nat 0)) 2000
      \<and> lockedBy (seats ?ex ! nat 0) \<noteq> Val (userOf (Some ''bob''))"
    by (simp add: timerLockExample_def startup_seats_length seatObject_def userOf_def)
  have p4: "status (seats ?api ! nat 0) = ''locked''
      \<and> \<not> expiredAt (lockExpiresAt (seats ?api ! nat 0)) 2000
      \<and> lockedBy (seats ?api ! nat 0) \<noteq> Val (userOf (Some ''bob''))"
    by (simp add: apiLock_startup startup_seats_length initialSeat_def userOf_def)
  from confirm_failures[OF wellFormed_startup h1, where q="Some ''alice''" and now=2000] p1
  have c1: "confirm 1 (Some ''alice'') 2000 startup
      = ((400, Message NotLockedCannotBeBooked), startup)"
    by blast
  from confirm_failures[OF wellFormed_timerLockExample h0, where q="Some ''bob''" and now=61000
      and t=61000] p2
  have c2: "fst (confirm 0 (Some ''bob'') 61000 ?ex) = (408, Message LockExpiredLockAgain)
      \<and> seats (snd (confirm 0 (Some ''bob'') 61000 ?ex))
        = (seats ?ex)[nat 0 := seatObject ''available'' Undefined Undefined]
      \<and> noTimerFor (nat 0) (snd (confirm 0 (Some ''bob'') 61000 ?ex))"
    by blast
  from confirm_failures[OF wellFormed_timerLockExample h0, where q="Some ''bob''" and now=2000] p3
  have c5: "confirm 0 (Some ''bob'') 2000 ?ex = ((403, Message SeatLockedByAnotherUser), ?ex)"
    by blast
  from confirm_failures[OF wa ha, where q="Some ''bob''" and now=2000] p4
  have c6: "confirm 0 (Some ''bob'') 2000 ?api = ((403, Message SeatLockedByAnotherUser), ?api)"
    by blast
  have len: "0 < length (seats ?ex)" using h0 by (simp add: hasSeat_def)
  have c4: "status (seats (snd (confirm 0 (Some ''bob'') 61000 ?ex)) ! 0) = ''available''"
    using len c2 by (simp add: seatObject_def)
  have tm: "timers (snd (confirm 0 (Some ''bob'') 61000 ?ex)) = []"
    by (simp add: confirm_def Let_def clearSeatTimer_def hasSeat_def timerLockExample_def
        startup_seats_length seatObject_def)
  show ?thesis using c1 c2 c4 tm c5 c6 by blast
qed

text \<open>
  Claim C6. Release of a seat that is not locked fails with NotLocked; of a seat locked
  by another holder, with WrongHolder; the holder's release succeeds, makes the seat
  available and returns the updated record. \<^verbatim>\<open>POST /api/seats/:id/release\<close> does so
  for a seat it finds (\<open>apiRelease_found\<close>), but it looks the seat up by its \<^verbatim>\<open>id\<close>
  property, and the objects that the timer-based handlers store have none. After alice
  locks seat 1 (\<^verbatim>\<open>POST /api/seats/1/lock\<close>) and the lock is cleared
  (\<^verbatim>\<open>POST /unlock/0\<close>), the seat is available, and Release of seat 1 answers 404
  (NotFound), not 400 (NotLocked).
\<close>

theorem release_loses_replaced_seat:
  "map_option (\<lambda>srv. (status (seats srv ! 0),
                       apiRelease 1 (Some ''alice'') (cleanExpiredLocks 3000 srv)
                         = ((404, Failure SeatNotFound), srv)))
     (run [Sweep 1000, ApiLock 1 (Some ''alice'') 1000, Sweep 2000, Unlock 0] startup)
   = Some (''available'', True)"
proof -
  let ?u = "startup\<lparr>seats := (seats startup)[0 := seatObject ''available'' Undefined Undefined]\<rparr>"
  have r: "run [Sweep 1000, ApiLock 1 (Some ''alice'') 1000, Sweep 2000, Unlock 0] startup
      = Some ?u"
    by (simp add: cleanExpiredLocks_startup apiLock_startup cleanExpiredLocks_apiLocked
        unlock_apiLocked)
  have rel: "apiRelease 1 (Some ''alice'') (cleanExpiredLocks 3000 ?u)
      = ((404, Failure SeatNotFound), ?u)"
    by (simp add: cleanExpiredLocks_replaced apiRelease_def findSeat_replaced)
  have st: "status (seats ?u ! 0) = ''available''"
    by (simp add: startup_seats_length seatObject_def)
  show ?thesis unfolding r using rel st by simp
qed


text \<open>
  Claim C7. Unlock (\<^verbatim>\<open>POST /unlock/:id\<close>, no holder check): an available seat gives
  200 "already available" and a booked seat 409 (Immutable), the state unchanged; a
  locked seat gives 200, the seat made available with no holder and no expiry, and no
  timer left for it. This holds in every well-formed state; every state a run reaches is
  well formed (\<open>reachable_wellFormed\<close>).
\<close>

theorem unlock_outcomes:
  assumes "wellFormed srv" and "hasSeat k srv"
  shows
    "(status (seats srv ! nat k) = ''available'' \<longrightarrow>
        unlock k srv = ((200, Message (SeatAlreadyAvailable k)), srv))
   \<and> (status (seats srv ! nat k) = ''booked'' \<longrightarrow>
        unlock k srv = ((409, Message (SeatBookedCannotUnlock k)), srv))
   \<and> (status (seats srv ! nat k) = ''locked'' \<longrightarrow>
        fst (unlock k srv) = (200, Message (SeatLockCleared k))
      \<and> seats (snd (unlock k srv))
          = (seats srv)[nat k := seatObject ''available'' Undefined Undefined]
      \<and> noTimerFor (nat k) (snd (unlock k srv)))"
proof -
  note w = assms(1)
  note i = hasSeat_index[OF w assms(2)]
  let ?x = "(clearSeatTimer (nat k) srv)
                 \<lparr>seats := (seats (clearSeatTimer (nat k) srv))
                    [nat k := seatObject ''available'' Undefined Undefined]\<rparr>"
  have nt: "noTimerFor (nat k) ?x"
    using wellFormed_clear_store(2)[OF w i shapeOk_available] .
  have sx: "seats ?x = (seats srv)[nat k := seatObject ''available'' Undefined Undefined]"
    by (simp add: clearSeatTimer_store)
  have l: "unlock k srv = ((200, Message (SeatLockCleared k)), ?x)"
    if "status (seats srv ! nat k) = ''locked''"
    using that assms(2) by (simp add: unlock_def Let_def)
  show ?thesis
  proof (intro conjI impI)
    assume "status (seats srv ! nat k) = ''available''"
    then show "unlock k srv = ((200, Message (SeatAlreadyAvailable k)), srv)"
      using assms(2) by (simp add: unlock_def Let_def)
  next
    assume "status (seats srv ! nat k) = ''booked''"
    then show "unlock k srv = ((409, Message (SeatBookedCannotUnlock k)), srv)"
      using assms(2) by (simp add: unlock_def Let_def)
  next
    assume s: "status (seats srv ! nat k) = ''locked''"
    show "fst (unlock k srv) = (200, Message (SeatLockCleared k))"
      by (simp add: l[OF s])
    show "seats (snd (unlock k srv))
          = (seats srv)[nat k := seatObject ''available'' Undefined Undefined]"
      using sx by (simp add: l[OF s])
    show "noTimerFor (nat k) (snd (unlock k srv))"
      using nt by (simp add: l[OF s])
  qed
qed

theorem unlock_outcomes_witness:
  "unlock 1 startup = ((200, Message (SeatAlreadyAvailable 1)), startup)
   \<and> unlock 0 (snd (confirm 0 (Some ''alice'') 2000 (snd (apiLock 1 (Some ''alice'') 1000 startup))))
     = ((409, Message (SeatBookedCannotUnlock 0)),
        snd (confirm 0 (Some ''alice'') 2000 (snd (apiLock 1 (Some ''alice'') 1000 startup))))
   \<and> fst (unlock 0 (snd (apiLock 1 (Some ''alice'') 1000 startup)))
     = (200, Message (SeatLockCleared 0))
   \<and> seats (snd (unlock 0 (snd (apiLock 1 (Some ''alice'') 1000 startup)))) ! 0
     = seatObject ''available'' Undefined Undefined
   \<and> fst (unlock 0 timerLockExample) = (200, Message (SeatLockCleared 0))
   \<and> seats (snd (unlock 0 timerLockExample)) ! 0 = seatObject ''available'' Undefined Undefined
   \<and> timers (snd (unlock 0 timerLockExample)) = []"
proof -
  let ?ex = "timerLockExample"
  let ?api = "snd (apiLock 1 (Some ''alice'') 1000 startup)"
  let ?bk = "snd (confirm 0 (Some ''alice'') 2000 ?api)"
  have ra: "run [ApiLock 1 (Some ''alice'') 1000] startup = Some ?api" by simp
  have rb: "run [ApiLock 1 (Some ''alice'') 1000, Confirm 0 (Some ''alice'') 2000] startup
      = Some ?bk" by simp
  note wa = reachable_wellFormed[OF ra]
  note wb = reachable_wellFormed[OF rb]
  have u: "userOf (Some ''alice'') = ''alice''" by (simp add: userOf_def)
  have bk: "?bk = startup\<lparr>seats := (seats startup)[0 := seatObject ''booked'' Undefined Undefined]\<rparr>"
    using confirm_apiLocked[of "Some ''alice''"] by (simp add: apiLock_startup u)
  have h1: "hasSeat 1 startup" by (simp add: hasSeat_def startup_seats_length)
  have ha: "hasSeat 0 ?api" by (simp add: hasSeat_def apiLock_startup startup_seats_length)
  have hb: "hasSeat 0 ?bk" unfolding bk by (simp add: hasSeat_def startup_seats_length)
  have he: "hasSeat 0 ?ex" by (simp add: hasSeat_def timerLockExample_def startup_seats_length)
  have p1: "status (seats startup ! nat 1) = ''available''"
    by (simp add: startup_seat initialSeat_def)
  have p2: "status (seats ?bk ! nat 0) = ''booked''"
    unfolding bk by (simp add: startup_seats_length seatObject_def)
  have p3: "status (seats ?api ! nat 0) = ''locked''"
    by (simp add: apiLock_startup startup_seats_length)
  have p4: "status (seats ?ex ! nat 0) = ''locked''"
    by (simp add: timerLockExample_def startup_seats_length seatObject_def)
  from unlock_outcomes[OF wellFormed_startup h1] p1
  have c1: "unlock 1 startup = ((200, Message (SeatAlreadyAvailable 1)), startup)"
    by blast
  from unlock_outcomes[OF wb hb] p2
  have c2: "unlock 0 ?bk = ((409, Message (SeatBookedCannotUnlock 0)), ?bk)"
    by blast
  from unlock_outcomes[OF wa ha] p3
  have c3: "fst (unlock 0 ?api) = (200, Message (SeatLockCleared 0))
      \<and> seats (snd (unlock 0 ?api))
        = (seats ?api)[nat 0 := seatObject ''available'' Undefined Undefined]"
    by blast
  from unlock_outcomes[OF wellFormed_timerLockExample he] p4
  have c4: "fst (unlock 0 ?ex) = (200, Message (SeatLockCleared 0))
      \<and> seats (snd (unlock 0 ?ex))
        = (seats ?ex)[nat 0 := seatObject ''available'' Undefined Undefined]
      \<and> noTimerFor (nat 0) (snd (unlock 0 ?ex))"
    by blast
  have la: "0 < length (seats ?api)" using ha by (simp add: hasSeat_def)
  have le: "0 < length (seats ?ex)" using he by (simp add: hasSeat_def)
  have c5: "seats (snd (unlock 0 ?api)) ! 0 = seatObject ''available'' Undefined Undefined"
    using la c3 by simp
  have c6: "seats (snd (unlock 0 ?ex)) ! 0 = seatObject ''available'' Undefined Undefined"
    using le c4 by simp
  have c7: "timers (snd (unlock 0 ?ex)) = []"
    by (simp add: unlock_def Let_def clearSeatTimer_def hasSeat_def timerLockExample_def
        startup_seats_length seatObject_def)
  show ?thesis using c1 c2 c3 c4 c5 c6 c7 by blast
qed

text \<open>
  Claim C8. The list query applies the lazy release before it answers: the middleware
  \<^verbatim>\<open>cleanExpiredLocks\<close> runs before \<^verbatim>\<open>GET /seats\<close> (and before
  \<^verbatim>\<open>GET /api/seats\<close>), and in every state that a run reaches, a seat whose deadline
  has passed at the time of the query is not reported as locked.
\<close>

theorem list_reports_no_stale_lock:
  assumes "run evs startup = Some srv" and "j < length (seats srv)"
    and "deadlinePassed now (seats srv ! j)"
  shows "getSeats (cleanExpiredLocks now srv)
           = (200, StatusView (map status (seats (cleanExpiredLocks now srv))))
       \<and> length (map status (seats (cleanExpiredLocks now srv))) = length (seats srv)
       \<and> map status (seats (cleanExpiredLocks now srv)) ! j \<noteq> ''locked''
       \<and> apiGetSeats (cleanExpiredLocks now srv) = (200, SeatList (seats (cleanExpiredLocks now srv)))
       \<and> status (seats (cleanExpiredLocks now srv) ! j) \<noteq> ''locked''"
proof -
  have "plainSeat (seats srv ! j)"
    using noTimerLocks_nth[OF reachable_noTimerLocks[OF assms(1)] assms(2)] .
  then have "lockExpiresAt (seats srv ! j) = Undefined" by (simp add: plainSeat_def)
  with assms(3) have "elapsedOver now (lockedAt (seats srv ! j))"
    by (auto simp: deadlinePassed_def split: js.splits)
  then have "status (cleanSeat now (seats srv ! j)) \<noteq> ''locked''"
    by (simp add: cleanSeat_def)
  then show ?thesis
    using assms(2) by (simp add: getSeats_def apiGetSeats_def cleanExpiredLocks_def)
qed

theorem list_reports_no_stale_lock_witness:
  "deadlinePassed 61001 (seats (snd (apiLock 1 (Some ''alice'') 1000 startup)) ! 0)
   \<and> status (seats (snd (apiLock 1 (Some ''alice'') 1000 startup)) ! 0) = ''locked''
   \<and> map status (seats (cleanExpiredLocks 61001 (snd (apiLock 1 (Some ''alice'') 1000 startup)))) ! 0
       \<noteq> ''locked''
   \<and> status (seats (cleanExpiredLocks 61001 (snd (apiLock 1 (Some ''alice'') 1000 startup))) ! 0)
       \<noteq> ''locked''"
proof -
  let ?api = "snd (apiLock 1 (Some ''alice'') 1000 startup)"
  have r: "run [ApiLock 1 (Some ''alice'') 1000] startup = Some ?api" by simp
  have j: "0 < length (seats ?api)" by (simp add: apiLock_startup startup_seats_length)
  have d: "deadlinePassed 61001 (seats ?api ! 0)"
    by (simp add: apiLock_startup startup_seats_length deadlinePassed_def LOCK_EXPIRATION_TIME_def)
  have s: "status (seats ?api ! 0) = ''locked''"
    by (simp add: apiLock_startup startup_seats_length)
  from list_reports_no_stale_lock[OF r j d] d s show ?thesis by blast
qed


text \<open>
  Claim C9, as amended. Lock, Confirm and Release under \<^verbatim>\<open>/api/seats\<close> answer 400
  (InvalidIdentity) when the identity is missing or empty, before they look for the seat;
  the timer-based Lock and Confirm do not reject a missing or empty identity but read it
  as "anonymous". Every operation answers 404 (NotFound) when the id is outside the
  valid range 1..50, given an identity where one is checked first; of the timer-based
  handlers at id 0 nothing is said.
\<close>

theorem identity_and_range_checks:
  assumes "run evs startup = Some srv"
  shows
    "(missing userId \<longrightarrow>
        apiLock seatId userId now srv = ((400, Failure UserIdRequired), srv)
      \<and> apiConfirm seatId userId now srv = ((400, Failure UserIdRequired), srv)
      \<and> apiRelease seatId userId srv = ((400, Failure UserIdRequired), srv))
   \<and> (missing q \<longrightarrow>
        lock k q now srv = lock k (Some ''anonymous'') now srv
      \<and> confirm k q now srv = confirm k (Some ''anonymous'') now srv)
   \<and> ((seatId < 1 \<or> 50 < seatId) \<and> userId = Some u \<and> u \<noteq> [] \<longrightarrow>
        apiLock seatId userId now srv = ((404, Failure SeatNotFound), srv)
      \<and> apiConfirm seatId userId now srv = ((404, Failure SeatNotFound), srv)
      \<and> apiRelease seatId userId srv = ((404, Failure SeatNotFound), srv))
   \<and> (k < 0 \<or> 50 < k \<longrightarrow>
        lock k q now srv = ((404, Message (SeatDoesNotExist k)), srv)
      \<and> confirm k q now srv = ((404, Message (SeatDoesNotExist k)), srv)
      \<and> unlock k srv = ((404, Message (SeatDoesNotExist k)), srv))"
proof -
  have w: "wellFormed srv" using reachable_wellFormed[OF assms] .
  have an: "userOf (Some ''anonymous'') = ''anonymous''" by (simp add: userOf_def)
  show ?thesis
  proof (intro conjI impI)
    assume m: "missing userId"
    show "apiLock seatId userId now srv = ((400, Failure UserIdRequired), srv)"
      using m by (auto simp: apiLock_def missing_def split: option.splits)
    show "apiConfirm seatId userId now srv = ((400, Failure UserIdRequired), srv)"
      using m by (auto simp: apiConfirm_def missing_def split: option.splits)
    show "apiRelease seatId userId srv = ((400, Failure UserIdRequired), srv)"
      using m by (auto simp: apiRelease_def missing_def split: option.splits)
  next
    assume m: "missing q"
    show "lock k q now srv = lock k (Some ''anonymous'') now srv"
      by (simp add: lock_def userOf_missing[OF m] an)
    show "confirm k q now srv = confirm k (Some ''anonymous'') now srv"
      by (simp add: confirm_def userOf_missing[OF m] an)
  next
    assume a: "(seatId < 1 \<or> 50 < seatId) \<and> userId = Some u \<and> u \<noteq> []"
    then have n: "findSeat seatId (seats srv) = None"
      using findSeat_out_of_range[OF w] by blast
    show "apiLock seatId userId now srv = ((404, Failure SeatNotFound), srv)"
      using a n by (simp add: apiLock_def)
    show "apiConfirm seatId userId now srv = ((404, Failure SeatNotFound), srv)"
      using a n by (simp add: apiConfirm_def)
    show "apiRelease seatId userId srv = ((404, Failure SeatNotFound), srv)"
      using a n by (simp add: apiRelease_def)
  next
    assume "k < 0 \<or> 50 < k"
    then have n: "\<not> hasSeat k srv" using hasSeat_range[OF w, of k] by auto
    show "lock k q now srv = ((404, Message (SeatDoesNotExist k)), srv)"
      using n by (simp add: lock_def)
    show "confirm k q now srv = ((404, Message (SeatDoesNotExist k)), srv)"
      using n by (simp add: confirm_def)
    show "unlock k srv = ((404, Message (SeatDoesNotExist k)), srv)"
      using n by (simp add: unlock_def)
  qed
qed

theorem identity_and_range_checks_witness:
  "apiLock 1 None 1000 startup = ((400, Failure UserIdRequired), startup)
   \<and> apiRelease 1 (Some []) startup = ((400, Failure UserIdRequired), startup)
   \<and> confirm 0 None 2000 startup = confirm 0 (Some ''anonymous'') 2000 startup
   \<and> apiLock 51 (Some ''alice'') 1000 startup = ((404, Failure SeatNotFound), startup)
   \<and> apiConfirm 0 (Some ''alice'') 1000 startup = ((404, Failure SeatNotFound), startup)
   \<and> lock 51 (Some ''alice'') 1000 startup = ((404, Message (SeatDoesNotExist 51)), startup)
   \<and> unlock (- 1) startup = ((404, Message (SeatDoesNotExist (- 1))), startup)"
proof -
  have r: "run [] startup = Some startup" by simp
  have m1: "missing None" and m2: "missing (Some [])" by (simp_all add: missing_def)
  have r1: "((51::int) < 1 \<or> 50 < (51::int)) \<and> Some ''alice'' = Some ''alice'' \<and> ''alice'' \<noteq> []"
    by simp
  have r2: "((0::int) < 1 \<or> 50 < (0::int)) \<and> Some ''alice'' = Some ''alice'' \<and> ''alice'' \<noteq> []"
    by simp
  have r3: "(51::int) < 0 \<or> 50 < (51::int)" by simp
  have r4: "(- 1::int) < 0 \<or> 50 < (- 1::int)" by simp
  from identity_and_range_checks[OF r, where userId=None and seatId=1 and now=1000] m1
  have c1: "apiLock 1 None 1000 startup = ((400, Failure UserIdRequired), startup)" by blast
  from identity_and_range_checks[OF r, where userId="Some []" and seatId=1] m2
  have c2: "apiRelease 1 (Some []) startup = ((400, Failure UserIdRequired), startup)" by blast
  from identity_and_range_checks[OF r, where q=None and k=0 and now=2000] m1
  have c3: "confirm 0 None 2000 startup = confirm 0 (Some ''anonymous'') 2000 startup"
    by blast
  from identity_and_range_checks[OF r, where userId="Some ''alice''" and u="''alice''"
      and seatId=51 and now=1000] r1
  have c4: "apiLock 51 (Some ''alice'') 1000 startup = ((404, Failure SeatNotFound), startup)"
    by blast
  from identity_and_range_checks[OF r, where userId="Some ''alice''" and u="''alice''"
      and seatId=0 and now=1000] r2
  have c5: "apiConfirm 0 (Some ''alice'') 1000 startup = ((404, Failure SeatNotFound), startup)"
    by blast
  from identity_and_range_checks[OF r, where q="Some ''alice''" and k=51 and now=1000] r3
  have c6: "lock 51 (Some ''alice'') 1000 startup
      = ((404, Message (SeatDoesNotExist 51)), startup)"
    by blast
  from identity_and_range_checks[OF r, where k="- 1"] r4
  have c7: "unlock (- 1) startup = ((404, Message (SeatDoesNotExist (- 1))), startup)"
    by blast
  show ?thesis using c1 c2 c3 c4 c5 c6 c7 by blast
qed

text \<open>
  Claim C9 as stated fails. A Confirm without identity is not rejected: with seat 1
  locked by the user "anonymous" through \<^verbatim>\<open>POST /api/seats/1/lock\<close>,
  \<^verbatim>\<open>POST /confirm/0\<close> without \<^verbatim>\<open>user\<close> books the seat. With neither an identity nor
  a valid id, \<^verbatim>\<open>POST /api/seats/51/lock\<close> answers InvalidIdentity, not NotFound. And id
  0, outside 1..50, is not answered NotFound by \<^verbatim>\<open>POST /unlock/0\<close>.
\<close>

theorem confirm_accepts_missing_identity:
  "fst (confirm 0 None 2000 (cleanExpiredLocks 2000
          (snd (apiLock 1 (Some ''anonymous'') 1000 (cleanExpiredLocks 1000 startup)))))
     = (200, Message (SeatBookedSuccessfully 0))
   \<and> status (seats (snd (confirm 0 None 2000 (cleanExpiredLocks 2000
          (snd (apiLock 1 (Some ''anonymous'') 1000 (cleanExpiredLocks 1000 startup)))))) ! 0)
     = ''booked''
   \<and> apiLock 51 None 1000 (cleanExpiredLocks 1000 startup)
     = ((400, Failure UserIdRequired), startup)
   \<and> unlock 0 (cleanExpiredLocks 1000 startup)
     = ((200, Message (SeatAlreadyAvailable 0)), startup)"
proof -
  have u: "userOf None = ''anonymous''" by (simp add: userOf_def)
  have a: "cleanExpiredLocks 2000
          (snd (apiLock 1 (Some ''anonymous'') 1000 (cleanExpiredLocks 1000 startup)))
      = startup\<lparr>seats := (seats startup)
           [0 := (initialSeat 0)\<lparr>status := ''locked'', lockedBy := Val ''anonymous'',
                                  lockedAt := Val 1000\<rparr>]\<rparr>"
    by (simp add: cleanExpiredLocks_startup apiLock_startup cleanExpiredLocks_apiLocked)
  have c1: "apiLock 51 None 1000 startup = ((400, Failure UserIdRequired), startup)"
    by (simp add: apiLock_def)
  have c2: "unlock 0 startup = ((200, Message (SeatAlreadyAvailable 0)), startup)"
    by (simp add: unlock_def hasSeat_def startup_seats_length startup_seat initialSeat_def)
  show ?thesis
    unfolding a using confirm_apiLocked[of None] c1 c2
    by (simp add: u cleanExpiredLocks_startup startup_seats_length seatObject_def)
qed

text \<open>
  Claim C10. In the timer-based handlers a missing or empty user becomes "anonymous"
  (\<open>userOf_missing\<close>), so that Lock without identity followed by Confirm without
  identity books an available seat. The code reads the identity so, but the Lock throws
  at line 551 (\<^verbatim>\<open>LOCK_TTL\<close> is declared nowhere) and stores nothing: at startup,
  \<^verbatim>\<open>POST /lock/0\<close> answers 500, the \<^verbatim>\<open>POST /confirm/0\<close> that follows answers 400
  (the seat is not locked), and the seat is not booked.
\<close>

theorem anonymous_lock_then_confirm_books_nothing:
  "run [Sweep 1000, Lock 0 None 1000, Sweep 2000, Confirm 0 None 2000] startup = Some startup
   \<and> fst (lock 0 None 1000 startup) = (500, Uncaught ReferenceError)
   \<and> fst (confirm 0 None 2000 startup) = (400, Message NotLockedCannotBeBooked)
   \<and> status (seats startup ! 0) = ''available''"
proof -
  have h: "hasSeat 0 startup" by (simp add: hasSeat_def startup_seats_length)
  have s: "status (seats startup ! nat 0) = ''available''"
    by (simp add: startup_seat initialSeat_def)
  have l: "lock 0 None 1000 startup = ((500, Uncaught ReferenceError), startup)"
    using lock_throws[OF h s] .
  have c: "confirm 0 None 2000 startup = ((400, Message NotLockedCannotBeBooked), startup)"
    using h s by (simp add: confirm_def Let_def)
  show ?thesis using s by (simp add: cleanExpiredLocks_startup l c)
qed


end
